theory Spec2Isabelle
  imports Complex_Main "HOL-Library.Sublist"
begin

section \<open>The miner's control loop and log aggregator (sd-miner-v1.3.1.py)\<close>

text \<open>
  A shallow embedding of \<^verbatim>\<open>src/sd-miner-v1.3.1.py\<close>. Python's \<^verbatim>\<open>str\<close> is \<open>string\<close> (the
  log lines and response bodies are taken as ASCII text), its unbounded \<^verbatim>\<open>int\<close> is \<open>int\<close>
  (or \<open>nat\<close> where the value is a count or an index), and its \<^verbatim>\<open>float\<close> is \<open>real\<close>: the
  clock readings, the intervals and the latencies are real numbers, and the rounding of
  floating-point arithmetic is not modelled. An exception is a value of \<open>error\<close>,
  returned as \<open>Inl\<close>; \<open>CollaboratorError\<close> stands for whatever a function outside this
  file raises, and \<open>DecoderError\<close> for whatever \<^verbatim>\<open>json.loads\<close> raises that is not a
  JSONDecodeError. A function that changes the configuration object or acts on the
  outside takes the configuration and the world and returns them with its result,
  also when it raises.
\<close>

datatype error =
    StopIteration
  | ValueError
  | ZeroDivisionError
  | KeyError
  | AttributeError
  | OSError
  | NVMLError
  | IndexError
  | DecoderError
  | CollaboratorError
  | SystemExit int

subsection \<open>Strings\<close>

text \<open>\<^verbatim>\<open>needle in haystack\<close> on two strings.\<close>

fun contains :: "string \<Rightarrow> string \<Rightarrow> bool" where
  "contains needle [] = (needle = [])"
| "contains needle (c # cs) = (prefix needle (c # cs) \<or> contains needle cs)"

text \<open>\<^verbatim>\<open>s.replace("'", "\"")\<close>: every apostrophe becomes a double quote.\<close>

definition replace_apostrophes :: "string \<Rightarrow> string" where
  "replace_apostrophes s = map (\<lambda>c. if c = CHR 0x27 then CHR 0x22 else c) s"

definition is_digit :: "char \<Rightarrow> bool" where
  "is_digit c = (c \<in> set ''0123456789'')"

definition digit_val :: "char \<Rightarrow> nat" where
  "digit_val c = of_char c - 48"

text \<open>\<^verbatim>\<open>int(s)\<close> on a string of decimal digits.\<close>

definition decimal :: "string \<Rightarrow> nat" where
  "decimal s = foldl (\<lambda>n c. 10 * n + digit_val c) 0 s"

text \<open>
  \<^verbatim>\<open>int(s)\<close> as the interpreter computes it: a string of more digits than
  \<^verbatim>\<open>sys.get_int_max_str_digits()\<close> raises ValueError (the limit is 4300 unless it is
  configured; leading zeros count; 0 means no limit).
\<close>

definition py_int :: "nat \<Rightarrow> string \<Rightarrow> error + nat" where
  "py_int limit s =
     (if 0 < limit \<and> limit < length s then Inl ValueError else Inr (decimal s))"

text \<open>
  \<^verbatim>\<open>float(s)\<close> on the strings the group \<^verbatim>\<open>([\d.]+)\<close> can capture, digits and dots: the
  text is a number when it has at most one dot and at least one digit, and \<^verbatim>\<open>float\<close>
  raises ValueError otherwise (\<^verbatim>\<open>"1.2.3"\<close>, \<^verbatim>\<open>"."\<close>).
\<close>

definition py_float :: "string \<Rightarrow> error + real" where
  "py_float s =
     (let ip = takeWhile is_digit s; rest = dropWhile is_digit s in
      case rest of
        [] \<Rightarrow> if ip = [] then Inl ValueError else Inr (real (decimal ip))
      | c # fp \<Rightarrow>
          if c = CHR ''.'' \<and> list_all is_digit fp \<and> (ip \<noteq> [] \<or> fp \<noteq> [])
          then Inr (real (decimal ip) + real (decimal fp) / 10 ^ length fp)
          else Inl ValueError)"

subsection \<open>The regular expressions of \<^verbatim>\<open>parse_log_file\<close>\<close>

text \<open>
  The patterns of the source are flat sequences of literal characters, \<^verbatim>\<open>.\<close>, \<^verbatim>\<open>.*\<close> and
  the capturing groups \<^verbatim>\<open>(\d+)\<close>, \<^verbatim>\<open>(.+)\<close> and \<^verbatim>\<open>([\d.]+)\<close>. \<open>match_here\<close> is Python's
  backtracking matcher on such a sequence: a repetition is greedy, it takes the longest
  run first and gives characters back one at a time until the rest of the pattern
  matches. The result is the list of the groups, \<^verbatim>\<open>group(1)\<close> first. \<^verbatim>\<open>.\<close> matches every
  character but the newline.
\<close>

datatype atom = Lit char | AnyChar | Digit | DigitOrDot

fun accepts :: "atom \<Rightarrow> char \<Rightarrow> bool" where
  "accepts (Lit a) c = (c = a)"
| "accepts AnyChar c = (c \<noteq> CHR 0x0A)"
| "accepts Digit c = is_digit c"
| "accepts DigitOrDot c = (is_digit c \<or> c = CHR ''.'')"

datatype item = One atom | Star atom | GroupPlus atom

fun first_some :: "'a option list \<Rightarrow> 'a option" where
  "first_some [] = None"
| "first_some (None # xs) = first_some xs"
| "first_some (Some x # xs) = Some x"

definition run :: "atom \<Rightarrow> string \<Rightarrow> nat" where
  "run a s = length (takeWhile (accepts a) s)"

fun match_here :: "item list \<Rightarrow> string \<Rightarrow> string list option" where
  "match_here [] s = Some []"
| "match_here (One a # r) s =
     (case s of [] \<Rightarrow> None | c # cs \<Rightarrow> if accepts a c then match_here r cs else None)"
| "match_here (Star a # r) s =
     first_some (map (\<lambda>k. match_here r (drop k s)) (rev [0..<Suc (run a s)]))"
| "match_here (GroupPlus a # r) s =
     first_some (map (\<lambda>k. map_option (Cons (take k s)) (match_here r (drop k s)))
                     (rev [1..<Suc (run a s)]))"

text \<open>\<^verbatim>\<open>pattern.search(line)\<close>: the match at the leftmost position that has one.\<close>

fun search :: "item list \<Rightarrow> string \<Rightarrow> string list option" where
  "search p [] = match_here p []"
| "search p (c # cs) =
     (case match_here p (c # cs) of Some g \<Rightarrow> Some g | None \<Rightarrow> search p cs)"

definition lits :: "string \<Rightarrow> item list" where
  "lits s = map (\<lambda>c. One (Lit c)) s"

text \<open>
  \<^verbatim>\<open>r"INFO - Device (\d+): (.+)"\<close>,
  \<^verbatim>\<open>r"INFO - Response from server for miner_id .*: (.+)"\<close> and
  \<^verbatim>\<open>r"INFO - Request ID (.+) completed. Total time: ([\d.]+) s"\<close> (the dot after
  \<^verbatim>\<open>completed\<close> is not escaped: it matches any character). The source compiles two more
  patterns, \<^verbatim>\<open>job_processing_pattern\<close> and \<^verbatim>\<open>latency_pattern\<close>, and never uses them.
\<close>

definition device_info_pattern :: "item list" where
  "device_info_pattern =
     lits ''INFO - Device '' @ [GroupPlus Digit] @ lits '': '' @ [GroupPlus AnyChar]"

definition job_received_pattern :: "item list" where
  "job_received_pattern =
     lits ''INFO - Response from server for miner_id '' @ [Star AnyChar] @ lits '': ''
     @ [GroupPlus AnyChar]"

definition job_completed_pattern :: "item list" where
  "job_completed_pattern =
     lits ''INFO - Request ID '' @ [GroupPlus AnyChar] @ lits '' completed'' @ [One AnyChar]
     @ lits '' Total time: '' @ [GroupPlus DigitOrDot] @ lits '' s''"

subsection \<open>\<^verbatim>\<open>parse_log_file\<close>\<close>

definition RUN_MARKER :: string where
  "RUN_MARKER = ''INFO - Starting new run''"

text \<open>
  What \<^verbatim>\<open>json.loads\<close> does with a text: it returns a value, it raises JSONDecodeError, or
  it raises another exception (RecursionError on deep nesting, ValueError on an integer
  over the digit limit), which the \<^verbatim>\<open>except\<close> clause of line 207 does not catch.
\<close>

datatype decoding = Decoded | JSONDecodeError | OtherError

text \<open>
  What \<^verbatim>\<open>parse_log_file\<close> reads from outside the program: the file system
  (\<open>files path\<close> is what \<^verbatim>\<open>readlines()\<close> returns, each line with its newline, or \<open>None\<close>
  when \<^verbatim>\<open>open\<close> or \<^verbatim>\<open>readlines\<close> raises, which the model names OSError), the JSON decoder (\<open>json_loads s\<close> is what \<^verbatim>\<open>json.loads(s)\<close> does), the NVML
  telemetry (the utilisation of each device by index, or \<open>None\<close> when an NVML call
  raises) and the interpreter's limit on the digits of an integer string.
\<close>

record host =
  files :: "string \<Rightarrow> string list option"
  json_loads :: "string \<Rightarrow> decoding"
  nvml :: "nat list option"
  int_max_str_digits :: nat

text \<open>
  The dictionary \<^verbatim>\<open>metrics\<close>. The loop keeps the latency samples in \<^verbatim>\<open>'latency'\<close> and the
  returned dictionary has their mean under the same key, so the record leaves the type
  of that field open: \<open>real list metrics\<close> in the loop, \<open>real metrics\<close> returned.
\<close>

record 'l metrics =
  gpu_usage :: "nat list"
  num_jobs :: int
  success_jobs :: int
  failed_jobs :: int
  latency :: 'l
  jobs_being_processed :: int

text \<open>
  A row of the dictionary \<^verbatim>\<open>devices\<close>: its name and its status; the eight other columns
  of the source are \<^verbatim>\<open>None\<close> in every row. The function never returns \<^verbatim>\<open>devices\<close>.
\<close>

record device_row =
  device_name :: string
  status :: string

type_synonym log_state = "(nat \<Rightarrow> device_row option) \<times> real list metrics"

definition initial_metrics :: "real list metrics" where
  "initial_metrics =
     \<lparr>gpu_usage = [], num_jobs = 0, success_jobs = 0, failed_jobs = 0, latency = [],
      jobs_being_processed = 0\<rparr>"

text \<open>
  Lines 187 to 202: a line that matches \<^verbatim>\<open>device_info_pattern\<close> registers the device;
  \<^verbatim>\<open>int(device_match.group(1))\<close> raises ValueError when the digits exceed the limit.
\<close>

definition register_device ::
  "nat \<Rightarrow> string \<Rightarrow> (nat \<Rightarrow> device_row option) \<Rightarrow> error + (nat \<Rightarrow> device_row option)" where
  "register_device limit line devices =
     (case search device_info_pattern line of
        Some (digits # name # _) \<Rightarrow>
          (case py_int limit digits of
             Inl e \<Rightarrow> Inl e
           | Inr device_id \<Rightarrow>
               Inr (devices(device_id \<mapsto> \<lparr>device_name = name, status = ''Idle''\<rparr>)))
      | _ \<Rightarrow> Inr devices)"

text \<open>
  Lines 204 to 208: when the line matches \<^verbatim>\<open>job_received_pattern\<close>, its payload,
  apostrophes replaced, goes to \<^verbatim>\<open>json.loads\<close>. The result \<open>Inr True\<close> is \<^verbatim>\<open>continue\<close>
  (JSONDecodeError was caught), \<open>Inr False\<close> is to go on with the line, and any other
  exception of the decoder leaves the function.
\<close>

definition job_received :: "(string \<Rightarrow> decoding) \<Rightarrow> string \<Rightarrow> error + bool" where
  "job_received decoder line =
     (case search job_received_pattern line of
        Some (payload # _) \<Rightarrow>
          (case decoder (replace_apostrophes payload) of
             Decoded \<Rightarrow> Inr False
           | JSONDecodeError \<Rightarrow> Inr True
           | OtherError \<Rightarrow> Inl DecoderError)
      | _ \<Rightarrow> Inr False)"

definition count_processing :: "string \<Rightarrow> real list metrics \<Rightarrow> real list metrics" where
  "count_processing line m =
     (if contains ''Processing Request ID'' line
      then m\<lparr>jobs_being_processed := jobs_being_processed m + 1, num_jobs := num_jobs m + 1\<rparr>
      else m)"

definition count_completed :: "string \<Rightarrow> real list metrics \<Rightarrow> error + real list metrics" where
  "count_completed line m =
     (case search job_completed_pattern line of
        Some (request_id # total_text # _) \<Rightarrow>
          (case py_float total_text of
             Inl e \<Rightarrow> Inl e
           | Inr total_time \<Rightarrow>
               Inr (m\<lparr>success_jobs := success_jobs m + 1,
                      jobs_being_processed := jobs_being_processed m - 1,
                      latency := latency m @ [total_time]\<rparr>))
      | _ \<Rightarrow> Inr m)"

definition count_warning :: "string \<Rightarrow> real list metrics \<Rightarrow> real list metrics" where
  "count_warning line m =
     (if contains ''WARNING'' line then m\<lparr>failed_jobs := failed_jobs m + 1\<rparr> else m)"

text \<open>The body of the loop over the lines, lines 187 to 228 of the source, on one line.\<close>

definition process_line :: "host \<Rightarrow> string \<Rightarrow> log_state \<Rightarrow> error + log_state" where
  "process_line h line st =
     (case register_device (int_max_str_digits h) line (fst st) of
        Inl e \<Rightarrow> Inl e
      | Inr devices \<Rightarrow>
          (case job_received (json_loads h) line of
             Inl e \<Rightarrow> Inl e
           | Inr True \<Rightarrow> Inr (devices, snd st)
           | Inr False \<Rightarrow>
               (case count_completed line (count_processing line (snd st)) of
                  Inl e \<Rightarrow> Inl e
                | Inr m \<Rightarrow> Inr (devices, count_warning line m))))"

fun process_lines :: "host \<Rightarrow> string list \<Rightarrow> log_state \<Rightarrow> error + log_state" where
  "process_lines h [] st = Inr st"
| "process_lines h (line # rest) st =
     (case process_line h line st of
        Inl e \<Rightarrow> Inl e
      | Inr st' \<Rightarrow> process_lines h rest st')"

text \<open>True division: \<^verbatim>\<open>x / n\<close> raises ZeroDivisionError when \<open>n\<close> is zero.\<close>

definition truediv :: "real \<Rightarrow> nat \<Rightarrow> error + real" where
  "truediv x n = (if n = 0 then Inl ZeroDivisionError else Inr (x / real n))"

definition avg_latency :: "real list \<Rightarrow> error + real" where
  "avg_latency samples =
     (if samples \<noteq> [] then truediv (sum_list samples) (length samples) else Inr 0)"

text \<open>
  Everything \<^verbatim>\<open>parse_log_file\<close> does once \<^verbatim>\<open>start_index\<close> is known, lines 186 to 248: the
  loop over \<^verbatim>\<open>log_lines[start_index:]\<close>, the NVML readings, the mean, the returned
  dictionary.
\<close>

definition aggregate :: "host \<Rightarrow> string list \<Rightarrow> error + real metrics" where
  "aggregate h lines =
     (case process_lines h lines (Map.empty, initial_metrics) of
        Inl e \<Rightarrow> Inl e
      | Inr st \<Rightarrow>
          (case nvml h of
             None \<Rightarrow> Inl NVMLError
           | Some usage \<Rightarrow>
               (case avg_latency (latency (snd st)) of
                  Inl e \<Rightarrow> Inl e
                | Inr avg \<Rightarrow>
                    Inr \<lparr>gpu_usage = gpu_usage (snd st) @ usage,
                         num_jobs = num_jobs (snd st),
                         success_jobs = success_jobs (snd st),
                         failed_jobs = failed_jobs (snd st),
                         latency = avg,
                         jobs_being_processed = jobs_being_processed (snd st)\<rparr>)))"

text \<open>
  \<^verbatim>\<open>next(i for i in reversed(range(len(log_lines))) if RUN_MARKER in log_lines[i]) + 1\<close>:
  \<^verbatim>\<open>next\<close> raises StopIteration when no line has the marker.
\<close>

definition start_index :: "string list \<Rightarrow> error + nat" where
  "start_index log_lines =
     (case find (\<lambda>i. contains RUN_MARKER (log_lines ! i)) (rev [0..<length log_lines]) of
        None \<Rightarrow> Inl StopIteration
      | Some i \<Rightarrow> Inr (i + 1))"

definition parse_log_file :: "host \<Rightarrow> string \<Rightarrow> error + real metrics" where
  "parse_log_file h log_file_path =
     (case files h log_file_path of
        None \<Rightarrow> Inl OSError
      | Some log_lines \<Rightarrow>
          (case start_index log_lines of
             Inl e \<Rightarrow> Inl e
           | Inr i \<Rightarrow> aggregate h (drop i log_lines)))"

subsection \<open>The worker's configuration and its collaborators\<close>

text \<open>
  The fields of the configuration object that this file reads or writes. The class
  \<^verbatim>\<open>BaseConfig\<close> is declared in \<^verbatim>\<open>sd_mining_core.base\<close>, outside this file. The dictionaries
  \<^verbatim>\<open>loaded_models\<close> and \<^verbatim>\<open>loaded_loras\<close> keep their insertion order, which decides the key
  that \<^verbatim>\<open>next(iter(d), None)\<close> returns; the loaded pipeline behind a key is opaque here
  and stands as a handle.
\<close>

record config =
  miner_id :: string
  version :: string
  base_url :: string
  signal_url :: string
  last_heartbeat :: real
  reload_interval :: real
  exclude_sdxl :: bool
  min_deadline :: int
  sleep_duration :: real
  num_cuda_devices :: int
  skip_checksum :: bool
  loaded_models :: "(string \<times> nat) list"
  loaded_loras :: "(string \<times> nat) list"

text \<open>A JSON value as far as this file looks into one: a string, \<^verbatim>\<open>null\<close>, or anything else.\<close>

datatype jvalue = JString string | JNull | JOther

text \<open>
  The response object that \<^verbatim>\<open>post_request\<close> returns. \<open>truthy\<close> is the truth value of the
  object in \<^verbatim>\<open>if response and ...\<close> (for a \<^verbatim>\<open>requests.Response\<close>, \<^verbatim>\<open>response.ok\<close>),
  \<open>body_text\<close> is \<^verbatim>\<open>response.text\<close> and \<open>json_dict\<close> is \<^verbatim>\<open>response.json()\<close>: the
  dictionary, or the exception raised when the body does not decode to one.
\<close>

record response =
  truthy :: bool
  status_code :: int
  body_text :: string
  json_dict :: "error + (string \<times> jvalue) list"

text \<open>The two payloads this file posts: the job request and the reload signal.\<close>

record miner_request =
  req_miner_id :: string
  req_model_id :: "string option"
  req_min_deadline :: int
  req_hardware :: "string option"
  req_version :: "string option"

record miner_signal =
  sig_miner_id :: string
  sig_model_type :: string
  sig_version :: string
  sig_exclude_sdxl :: bool

datatype payload = Request miner_request | Signal miner_signal

text \<open>\<^verbatim>\<open>post_request\<close> returns a response, returns \<^verbatim>\<open>None\<close>, or raises.\<close>

datatype post_outcome = Raises | Returns "response option"

text \<open>
  What the process does to the outside, in the order it does it. A message built by
  an f-string is recorded by its fixed text, each placeholder left as the source names
  it or as \<^verbatim>\<open>{}\<close>.
\<close>

datatype event =
    Printed string
  | Logged string string
  | Posted string payload
  | Submitted "(string \<times> jvalue) list" real real
  | Slept real
  | ThreadStarted string
  | ProcessStarted nat

text \<open>
  The world a worker runs in. \<open>clock n\<close> is the value of the \<open>n\<close>-th call of
  \<^verbatim>\<open>time.time()\<close> and \<open>reads\<close> counts the calls made; \<open>replies n\<close> is the outcome of the
  \<open>n\<close>-th call of \<^verbatim>\<open>post_request\<close> and \<open>posted\<close> counts those calls. The remaining fields
  are the collaborators of \<^verbatim>\<open>sd_mining_core.utils\<close>, whose code is outside this file:
  \<^verbatim>\<open>get_hardware_description\<close> (\<open>None\<close> when it raises), \<^verbatim>\<open>log_response\<close>,
  \<^verbatim>\<open>get_local_model_ids\<close>, \<^verbatim>\<open>reload_model\<close> (the configuration as it leaves it, and the
  exception if it raises one) and \<^verbatim>\<open>submit_job_result\<close> (the exception it raises, if any).
\<close>

record world =
  clock :: "nat \<Rightarrow> real"
  reads :: nat
  replies :: "nat \<Rightarrow> post_outcome"
  posted :: nat
  trace :: "event list"
  hardware :: "string option"
  log_response :: "response option \<Rightarrow> error + (string \<times> jvalue) list option"
  local_model_ids :: "string list"
  reload_model :: "config \<Rightarrow> string \<Rightarrow> error option \<times> config"
  submit_job_result :: "error option"

definition now :: "world \<Rightarrow> real" where
  "now w = clock w (reads w)"

definition tick :: "world \<Rightarrow> world" where
  "tick w = w\<lparr>reads := Suc (reads w)\<rparr>"

definition emit :: "event \<Rightarrow> world \<Rightarrow> world" where
  "emit e w = w\<lparr>trace := trace w @ [e]\<rparr>"

text \<open>
  A call \<^verbatim>\<open>post_request(config, url, data, config.miner_id)\<close>: \<open>reply w\<close> is what the
  call returns or raises in the world \<open>w\<close>, and \<open>post_request url data w\<close> is the world
  after the call.
\<close>

definition reply :: "world \<Rightarrow> post_outcome" where
  "reply w = replies w (posted w)"

definition post_request :: "string \<Rightarrow> payload \<Rightarrow> world \<Rightarrow> world" where
  "post_request url data w = emit (Posted url data) (w\<lparr>posted := Suc (posted w)\<rparr>)"

text \<open>\<^verbatim>\<open>next(iter(d), None)\<close>, and \<^verbatim>\<open>list(d.keys())[0]\<close> on a dictionary that is not empty.\<close>

definition first_key :: "(string \<times> nat) list \<Rightarrow> string option" where
  "first_key d = (case d of [] \<Rightarrow> None | kv # _ \<Rightarrow> Some (fst kv))"

definition has_key :: "string \<Rightarrow> (string \<times> 'v) list \<Rightarrow> bool" where
  "has_key k d = (k \<in> set (map fst d))"

definition dict_get :: "(string \<times> 'v) list \<Rightarrow> string \<Rightarrow> 'v option" where
  "dict_get d k = map_of d k"

subsection \<open>\<^verbatim>\<open>send_miner_request\<close>\<close>

text \<open>
  \<^verbatim>\<open>s.split(sep)\<close> for a separator that is not empty: the pieces between the occurrences
  of \<open>sep\<close>, found from the left and never overlapping. Where \<open>sep\<close> does not start, the
  character joins the first piece of what follows (that list is never empty).
\<close>

fun str_split :: "string \<Rightarrow> string \<Rightarrow> string list" where
  "str_split sep [] = [[]]"
| "str_split sep (c # cs) =
     (if prefix sep (c # cs) then [] # str_split sep (drop (length sep - 1) cs)
      else (case str_split sep cs of
              [] \<Rightarrow> [[c]]
            | piece # pieces \<Rightarrow> (c # piece) # pieces))"

text \<open>\<^verbatim>\<open>s.strip('"')\<close>: every double quote at either end is removed.\<close>

definition strip_quotes :: "string \<Rightarrow> string" where
  "strip_quotes s =
     rev (dropWhile (\<lambda>c. c = CHR 0x22) (rev (dropWhile (\<lambda>c. c = CHR 0x22) s)))"

definition warning_indicator :: string where
  "warning_indicator = ''Warning:''"

text \<open>
  \<^verbatim>\<open>response.text.split(warning_indicator)[1].strip('"')\<close>; the index raises IndexError on
  a list of one piece.
\<close>

definition warning_message :: "string \<Rightarrow> error + string" where
  "warning_message body =
     (case str_split warning_indicator body of
        _ # piece # _ \<Rightarrow> Inr (strip_quotes piece)
      | _ \<Rightarrow> Inl IndexError)"

text \<open>
  Lines 103 to 107: when sixty seconds have passed since \<^verbatim>\<open>config.last_heartbeat\<close>, the
  hardware description and the version join the request and \<^verbatim>\<open>config.last_heartbeat\<close>
  becomes the time read then, before anything is sent.
\<close>

definition attach_heartbeat ::
  "config \<Rightarrow> miner_request \<Rightarrow> world \<Rightarrow> (error + miner_request) \<times> config \<times> world" where
  "attach_heartbeat cfg request_data w0 =
     (let elapsed = now w0 - last_heartbeat cfg; w1 = tick w0 in
      if elapsed \<ge> 60 then
        (case hardware w1 of
           None \<Rightarrow> (Inl CollaboratorError, cfg, w1)
         | Some description \<Rightarrow>
             (Inr (request_data\<lparr>req_hardware := Some description,
                                 req_version := Some (version cfg)\<rparr>),
              cfg\<lparr>last_heartbeat := now w1\<rparr>,
              emit (Logged ''DEBUG'' ''Heartbeat updated at {} with hardware {} and version {} for miner ID {}.'')
                (tick w1)))
      else (Inr request_data, cfg, w1))"

text \<open>Lines 115 to 119: the warning in the body of a response that is truthy.\<close>

definition surface_warning :: "response option \<Rightarrow> world \<Rightarrow> error + world" where
  "surface_warning response w =
     (case response of
        None \<Rightarrow> Inr w
      | Some r \<Rightarrow>
          if truthy r \<and> contains warning_indicator (body_text r) then
            (case warning_message (body_text r) of
               Inl e \<Rightarrow> Inl e
             | Inr message \<Rightarrow> Inr (emit (Printed (''WARNING: '' @ message)) w))
          else Inr w)"

text \<open>
  Lines 97 to 132. The \<^verbatim>\<open>try\<close> block of lines 123 to 130 only reads \<^verbatim>\<open>response_data\<close> into
  two local names that nothing uses, so it leaves no trace here.
\<close>

definition send_miner_request ::
  "config \<Rightarrow> string option \<Rightarrow> int \<Rightarrow> world
   \<Rightarrow> (error + ((string \<times> jvalue) list option \<times> real)) \<times> config \<times> world" where
  "send_miner_request cfg model_id deadline w0 =
     (case attach_heartbeat cfg
             \<lparr>req_miner_id = miner_id cfg, req_model_id = model_id,
              req_min_deadline = deadline, req_hardware = None, req_version = None\<rparr> w0 of
        (Inl e, cfg1, w1) \<Rightarrow> (Inl e, cfg1, w1)
      | (Inr request_data, cfg1, w1) \<Rightarrow>
         (let start_time = now w1;
              w2 = tick w1;
              outcome = reply w2;
              w3 = post_request (base_url cfg1 @ ''/miner_request'') (Request request_data) w2
          in
          case outcome of
            Raises \<Rightarrow> (Inl CollaboratorError, cfg1, w3)
          | Returns response \<Rightarrow>
             (let end_time = now w3;
                  w4 = tick w3;
                  request_latency = end_time - start_time
              in
              case surface_warning response w4 of
                Inl e \<Rightarrow> (Inl e, cfg1, w4)
              | Inr w5 \<Rightarrow>
                  (case log_response w5 response of
                     Inl e \<Rightarrow> (Inl e, cfg1, w5)
                   | Inr response_data \<Rightarrow>
                       (Inr (response_data, request_latency), cfg1, w5)))))"

subsection \<open>\<^verbatim>\<open>check_and_reload_model\<close>\<close>

text \<open>The value of the \<^verbatim>\<open>return\<close> statement of line 161.\<close>

definition returned_signal_time :: "config \<Rightarrow> real \<Rightarrow> real \<Rightarrow> real" where
  "returned_signal_time cfg current_time last_signal_time =
     (if current_time - last_signal_time < reload_interval cfg then last_signal_time
      else current_time)"

text \<open>
  The test of line 154 on \<^verbatim>\<open>model_id_from_signal\<close>, the value of
  \<^verbatim>\<open>response.json().get('model_id')\<close>: it is among the local model ids (all strings) and
  is a key of neither dictionary.
\<close>

definition applicable :: "config \<Rightarrow> world \<Rightarrow> jvalue option \<Rightarrow> string option" where
  "applicable cfg w v =
     (case v of
        Some (JString m) \<Rightarrow>
          if m \<in> set (local_model_ids w) \<and> \<not> has_key m (loaded_models cfg)
             \<and> \<not> has_key m (loaded_loras cfg)
          then Some m else None
      | _ \<Rightarrow> None)"

definition check_and_reload_model ::
  "config \<Rightarrow> real \<Rightarrow> world \<Rightarrow> (error + real) \<times> config \<times> world" where
  "check_and_reload_model cfg last_signal_time w0 =
     (let current_time = now w0; w1 = tick w0 in
      if current_time - last_signal_time \<ge> reload_interval cfg then
        let model_id =
              (if loaded_loras cfg \<noteq> [] then first_key (loaded_loras cfg)
               else if loaded_models cfg \<noteq> [] then first_key (loaded_models cfg)
               else None);
            w2 = (if model_id = None
                  then emit (Logged ''WARNING'' ''No loaded models found. Posting to miner_signal to load a new model.'') w1
                  else w1);
            outcome = reply w2;
            w3 = post_request (signal_url cfg @ ''/miner_signal'')
                   (Signal \<lparr>sig_miner_id = miner_id cfg, sig_model_type = ''SD'',
                            sig_version = version cfg, sig_exclude_sdxl = exclude_sdxl cfg\<rparr>) w2
        in
        case outcome of
          Raises \<Rightarrow> (Inl CollaboratorError, cfg, w3)
        | Returns response \<Rightarrow>
            (case response of
               Some r \<Rightarrow>
                 if truthy r \<and> status_code r = 200 then
                   (case json_dict r of
                      Inl e \<Rightarrow> (Inl e, cfg, w3)
                    | Inr d \<Rightarrow>
                        (case applicable cfg w3 (dict_get d ''model_id'') of
                           Some m \<Rightarrow>
                             (case reload_model w3 cfg m of
                                (Some e, cfg') \<Rightarrow> (Inl e, cfg', w3)
                              | (None, cfg') \<Rightarrow>
                                  (Inr (returned_signal_time cfg' current_time current_time),
                                   cfg', w3))
                         | None \<Rightarrow>
                             (Inr (returned_signal_time cfg current_time last_signal_time),
                              cfg, w3)))
                 else
                   (Inr (returned_signal_time cfg current_time last_signal_time), cfg,
                    emit (Logged ''ERROR'' ''Failed to get a valid response from /miner_signal for miner_id {config.miner_id}.'') w3)
             | None \<Rightarrow>
                 (Inr (returned_signal_time cfg current_time last_signal_time), cfg,
                  emit (Logged ''ERROR'' ''Failed to get a valid response from /miner_signal for miner_id {config.miner_id}.'') w3))
      else (Inr (returned_signal_time cfg current_time last_signal_time), cfg, w1))"

subsection \<open>\<^verbatim>\<open>process_jobs\<close> and the loop of \<^verbatim>\<open>main\<close>\<close>

text \<open>\<^verbatim>\<open>job[key]\<close> raises KeyError when the key is missing.\<close>

definition subscript :: "(string \<times> jvalue) list \<Rightarrow> string \<Rightarrow> error + jvalue" where
  "subscript d k = (case dict_get d k of None \<Rightarrow> Inl KeyError | Some v \<Rightarrow> Inr v)"

definition process_jobs :: "config \<Rightarrow> world \<Rightarrow> (error + bool) \<times> config \<times> world" where
  "process_jobs cfg w0 =
     (let current_model_id = first_key (loaded_models cfg);
          current_lora_id = first_key (loaded_loras cfg);
          model_ids = local_model_ids w0
      in
      if model_ids = [] then
        (Inl (SystemExit 0), cfg, emit (Logged ''DEBUG'' ''No models found. Exiting...'') w0)
      else
       (let model_id_to_send =
              (if current_lora_id \<noteq> None then current_lora_id else current_model_id)
        in
        case send_miner_request cfg model_id_to_send (min_deadline cfg) w0 of
          (Inl e, cfg1, w1) \<Rightarrow> (Inl e, cfg1, w1)
        | (Inr (job, request_latency), cfg1, w1) \<Rightarrow>
            (case job of
               None \<Rightarrow> (Inr False, cfg1, emit (Logged ''INFO'' ''No job received.'') w1)
             | Some job_fields \<Rightarrow>
                 if job_fields = [] then
                   (Inr False, cfg1, emit (Logged ''INFO'' ''No job received.'') w1)
                 else
                  (let job_start_time = now w1; w2 = tick w1 in
                   case subscript job_fields ''job_id'' of
                     Inl e \<Rightarrow> (Inl e, cfg1, w2)
                   | Inr _ \<Rightarrow>
                       (case subscript job_fields ''model_id'' of
                          Inl e \<Rightarrow> (Inl e, cfg1, w2)
                        | Inr _ \<Rightarrow>
                           (let w3 = emit (Logged ''INFO'' ''Processing Request ID: {job_id}. Model ID: {model_id}.'') w2 in
                            case subscript job_fields ''temp_credentials'' of
                               Inl e \<Rightarrow> (Inl e, cfg1, w3)
                             | Inr _ \<Rightarrow>
                                (let w4 = emit (Submitted job_fields job_start_time request_latency) w3 in
                                 case submit_job_result w4 of
                                    Some e \<Rightarrow> (Inl e, cfg1, w4)
                                  | None \<Rightarrow> (Inr True, cfg1, w4))))))))"

text \<open>
  One pass through the body of \<^verbatim>\<open>while True\<close>, lines 348 to 355. \<^verbatim>\<open>sys.exit\<close> raises
  SystemExit, which \<^verbatim>\<open>except Exception\<close> does not catch: it ends the process, and the
  result is then \<open>Inl (SystemExit code)\<close>. Every other exception is logged and the
  pass sleeps. The result \<open>Inr t\<close> is the value of \<^verbatim>\<open>last_signal_time\<close> for the next pass.
\<close>

definition after_pass :: "bool \<Rightarrow> config \<Rightarrow> world \<Rightarrow> world" where
  "after_pass executed cfg w = (if executed then w else emit (Slept (sleep_duration cfg)) w)"

definition caught :: "error \<Rightarrow> real \<Rightarrow> config \<Rightarrow> world \<Rightarrow> (error + real) \<times> config \<times> world" where
  "caught e last_signal_time cfg w =
     (case e of
        SystemExit code \<Rightarrow> (Inl (SystemExit code), cfg, w)
      | _ \<Rightarrow> (Inr last_signal_time, cfg,
              after_pass False cfg (emit (Logged ''ERROR'' ''Error occurred:'') w)))"

definition worker_pass :: "config \<Rightarrow> real \<Rightarrow> world \<Rightarrow> (error + real) \<times> config \<times> world" where
  "worker_pass cfg last_signal_time w0 =
     (case check_and_reload_model cfg last_signal_time w0 of
        (Inl e, cfg1, w1) \<Rightarrow> caught e last_signal_time cfg1 w1
      | (Inr last_signal_time', cfg1, w1) \<Rightarrow>
          (case process_jobs cfg1 w1 of
             (Inl e, cfg2, w2) \<Rightarrow> caught e last_signal_time' cfg2 w2
           | (Inr executed, cfg2, w2) \<Rightarrow>
               (Inr last_signal_time', cfg2, after_pass executed cfg2 w2)))"

subsection \<open>The entry point\<close>

text \<open>
  What the block under \<^verbatim>\<open>if __name__ == "__main__"\<close> meets when it starts: the outcome of
  \<^verbatim>\<open>load_config()\<close> and of \<^verbatim>\<open>initialize_logging_and_args\<close>, the value of
  \<^verbatim>\<open>torch.cuda.device_count()\<close>, and the exception, if any, of each collaborator it
  calls before it starts the workers.
\<close>

record startup =
  load_config :: "error + config"
  initialize_logging_and_args :: "config \<Rightarrow> error + config"
  device_count :: int
  check_cuda :: "error option"
  fetch_and_download_config_files :: "error option"
  compare_model_checksums :: "error option"

text \<open>
  How the entry point ends: \<open>Exited code\<close> by \<^verbatim>\<open>sys.exit(code)\<close>, \<open>Uncaught e\<close> by an
  exception that nothing catches (the interpreter then exits with status 1), or
  \<open>Joining\<close>: every worker is started and the process waits in \<^verbatim>\<open>p.join()\<close>.
\<close>

datatype ending = Exited int | Uncaught error | Joining

definition exit_status :: "ending \<Rightarrow> int option" where
  "exit_status e =
     (case e of
        Exited code \<Rightarrow> Some code
      | Uncaught (SystemExit code) \<Rightarrow> Some code
      | Uncaught _ \<Rightarrow> Some 1
      | Joining \<Rightarrow> None)"

definition start_workers :: "int \<Rightarrow> event list" where
  "start_workers n = map ProcessStarted [0..<nat n]"

definition entry_point :: "startup \<Rightarrow> ending \<times> event list" where
  "entry_point s =
     (case load_config s of
        Inl e \<Rightarrow> (Uncaught e, [])
      | Inr cfg0 \<Rightarrow>
          (case initialize_logging_and_args s cfg0 of
             Inl e \<Rightarrow> (Uncaught e, [])
           | Inr cfg \<Rightarrow>
               if num_cuda_devices cfg > device_count s then
                 (Exited 1,
                  [Printed ''Number of CUDA devices specified in config is greater than available. Exiting...''])
               else
                 (case check_cuda s of
                    Some e \<Rightarrow> (Uncaught e, [])
                  | None \<Rightarrow>
                      (case fetch_and_download_config_files s of
                         Some e \<Rightarrow> (Uncaught e, [])
                       | None \<Rightarrow>
                           (case (if skip_checksum cfg then None else compare_model_checksums s) of
                              Some e \<Rightarrow> (Uncaught e, [])
                            | None \<Rightarrow>
                                (Joining,
                                 [ThreadStarted ''model_updater.start_scheduled_updates'',
                                  Logged ''INFO'' RUN_MARKER,
                                  ThreadStarted ''display_data_thread'']
                                 @ start_workers (num_cuda_devices cfg)))))))"

section \<open>The words of the properties\<close>

text \<open>
  The definitions of this section are not translations of the source. They name what
  the properties below speak about: the requests a run has posted, the lines of a log
  that the aggregator counts, the outcome of a reload signal that changes nothing.
\<close>

abbreviation config_after :: "'a \<times> config \<times> world \<Rightarrow> config" where
  "config_after r \<equiv> fst (snd r)"

abbreviation world_after :: "'a \<times> config \<times> world \<Rightarrow> world" where
  "world_after r \<equiv> snd (snd r)"

fun posted_request :: "event \<Rightarrow> miner_request option" where
  "posted_request (Posted url (Request rq)) = Some rq"
| "posted_request e = None"

text \<open>The job requests posted so far, oldest first.\<close>

definition requests_posted :: "world \<Rightarrow> miner_request list" where
  "requests_posted w = List.map_filter posted_request (trace w)"

text \<open>The test of line 103 at the next reading of the clock.\<close>

definition due :: "config \<Rightarrow> world \<Rightarrow> bool" where
  "due cfg w = (now w - last_heartbeat cfg \<ge> 60)"

text \<open>
  The reload signal returns and applies nothing: \<^verbatim>\<open>post_request\<close> returns \<^verbatim>\<open>None\<close>, or a
  response that is falsy or whose status is not 200, or a response whose model id is
  missing, not available locally or already loaded.
\<close>

definition signal_not_applied :: "config \<Rightarrow> world \<Rightarrow> bool" where
  "signal_not_applied cfg w =
     (case reply w of
        Raises \<Rightarrow> False
      | Returns None \<Rightarrow> True
      | Returns (Some r) \<Rightarrow>
          if truthy r \<and> status_code r = 200 then
            (case json_dict r of
               Inl e \<Rightarrow> False
             | Inr d \<Rightarrow> applicable cfg w (dict_get d ''model_id'') = None)
          else True)"

text \<open>The number of capturing groups of a pattern.\<close>

fun n_groups :: "item list \<Rightarrow> nat" where
  "n_groups [] = 0"
| "n_groups (GroupPlus a # r) = Suc (n_groups r)"
| "n_groups (i # r) = n_groups r"

text \<open>
  A line that the loop leaves by \<^verbatim>\<open>continue\<close>: it matches \<^verbatim>\<open>job_received_pattern\<close> and
  its payload, apostrophes replaced, raises JSONDecodeError. A line on which the loop
  raises before it counts anything: \<^verbatim>\<open>int\<close> at line 189 or \<^verbatim>\<open>json.loads\<close> at line 206
  raises an exception that is not caught.
\<close>

definition skipped :: "(string \<Rightarrow> decoding) \<Rightarrow> string \<Rightarrow> bool" where
  "skipped decoder line = (job_received decoder line = Inr True)"

definition line_raises :: "host \<Rightarrow> string \<Rightarrow> bool" where
  "line_raises h line =
     (isl (register_device (int_max_str_digits h) line Map.empty)
      \<or> isl (job_received (json_loads h) line))"

text \<open>
  A job-acceptance line and a job-completion line, by the tests of lines 210 and 221;
  \<open>counted decodes kind ls\<close> is the number of lines of \<open>ls\<close> of a kind that the loop
  does not leave by \<^verbatim>\<open>continue\<close>.
\<close>

definition acceptance_line :: "string \<Rightarrow> bool" where
  "acceptance_line l = contains ''Processing Request ID'' l"

definition completion_line :: "string \<Rightarrow> bool" where
  "completion_line l = (search job_completed_pattern l \<noteq> None)"

definition counted :: "(string \<Rightarrow> decoding) \<Rightarrow> (string \<Rightarrow> bool) \<Rightarrow> string list \<Rightarrow> nat" where
  "counted decodes kind ls = length (filter (\<lambda>l. kind l \<and> \<not> skipped decodes l) ls)"

section \<open>Concrete runs\<close>

text \<open>The inputs at which the properties below are evaluated.\<close>

definition nl :: "string \<Rightarrow> string" where
  "nl s = s @ [CHR 0x0A]"

definition quoted :: "string \<Rightarrow> string" where
  "quoted s = CHR 0x22 # s @ [CHR 0x22]"

definition marker_line :: string where
  "marker_line = nl ''2024-05-01 11:00:00,000 - root - INFO - Starting new run''"

definition previous_run :: "string list" where
  "previous_run =
     [nl ''2024-05-01 10:00:00,000 - root - INFO - Starting new run'',
      nl ''2024-05-01 10:00:05,000 - root - INFO - Processing Request ID: 1. Model ID: sd15.'',
      nl ''2024-05-01 10:00:09,000 - root - WARNING - retrying upload'']"

definition current_run :: "string list" where
  "current_run =
     [nl ''2024-05-01 11:00:01,000 - root - INFO - Device 0: RTX4090'',
      nl ''2024-05-01 11:00:05,000 - root - INFO - Processing Request ID: 7. Model ID: sd15.'',
      nl ''2024-05-01 11:00:09,000 - root - INFO - Request ID 7 completed. Total time: 3.2 s'']"

definition idle_run :: "string list" where
  "idle_run =
     [nl ''2024-05-01 11:00:01,000 - root - INFO - Device 0: RTX4090'',
      nl ''2024-05-01 11:00:05,000 - root - INFO - Processing Request ID: 7. Model ID: sd15.'']"

definition late_run :: "string list" where
  "late_run =
     [nl ''2024-05-01 11:00:09,000 - root - INFO - Request ID 7 completed. Total time: 3.2 s'']"

text \<open>
  A line that \<^verbatim>\<open>log_response\<close> could write for a response that quotes the acceptance
  message: it matches \<^verbatim>\<open>job_received_pattern\<close> with the payload \<^verbatim>\<open>sdxl.\<close>, the text after
  the last colon and space.
\<close>

definition echoed_line :: string where
  "echoed_line =
     nl ''2024-05-01 11:00:05,000 - root - INFO - Response from server for miner_id 0xabc: Processing Request ID: 7. Model ID: sdxl.''"

text \<open>
  The part of \<^verbatim>\<open>json.loads\<close> that the concrete runs need: it raises JSONDecodeError at the
  first character unless the text, after its leading white space, begins with a
  character that can begin a JSON value. The runs decode only \<^verbatim>\<open>sdxl.\<close>, which fails
  this test.
\<close>

definition begins_json :: "string \<Rightarrow> bool" where
  "begins_json s =
     (case dropWhile (\<lambda>c. c \<in> set [CHR '' '', CHR 0x09, CHR 0x0A, CHR 0x0D]) s of
        [] \<Rightarrow> False
      | c # _ \<Rightarrow> c \<in> set (CHR 0x22 # ''{[-0123456789tfnNI''))"

text \<open>A decoder that fails on every text with an exception of the other kind.\<close>

definition failing_decoder :: "string \<Rightarrow> decoding" where
  "failing_decoder s = OtherError"

definition example_decoder :: "string \<Rightarrow> decoding" where
  "example_decoder s = (if begins_json s then Decoded else JSONDecodeError)"

definition example_host :: host where
  "example_host =
     \<lparr>files = map_of
        [(''sd-miner.log'', previous_run @ marker_line # current_run),
         (''idle.log'', previous_run @ marker_line # idle_run),
         (''late.log'', previous_run @ marker_line # late_run),
         (''echo.log'', previous_run @ marker_line # [echoed_line]),
         (''fresh.log'', [marker_line]),
         (''unmarked.log'', current_run)],
      json_loads = example_decoder,
      nvml = Some [37],
      int_max_str_digits = 4300\<rparr>"

definition example_config :: config where
  "example_config =
     \<lparr>miner_id = ''0x1c83C85b57117E73f1195c37316b2E99B481aD6e-7bac77'',
      version = ''sd-v1.3.1'',
      base_url = ''https://scheduler.example'',
      signal_url = ''https://signal.example'',
      last_heartbeat = 0,
      reload_interval = 600,
      exclude_sdxl = False,
      min_deadline = 1,
      sleep_duration = 5,
      num_cuda_devices = 4,
      skip_checksum = True,
      loaded_models = [(''sd15'', 0)],
      loaded_loras = []\<rparr>"

text \<open>The same configuration with no base model and no adapter loaded.\<close>

definition bare_config :: config where
  "bare_config = example_config\<lparr>loaded_models := []\<rparr>"

text \<open>
  A world whose clock reads 1000, 1001, ... and whose scheduler answers every post
  with the same outcome; \<^verbatim>\<open>log_response\<close> returns the decoded body of the response.
\<close>

definition example_world :: "post_outcome \<Rightarrow> world" where
  "example_world outcome =
     \<lparr>clock = (\<lambda>n. 1000 + real n),
      reads = 0,
      replies = (\<lambda>n. outcome),
      posted = 0,
      trace = [],
      hardware = Some ''NVIDIA GeForce RTX 4090'',
      log_response =
        (\<lambda>response. Inr (case response of
                            None \<Rightarrow> None
                          | Some r \<Rightarrow> (case json_dict r of Inl e \<Rightarrow> None | Inr d \<Rightarrow> Some d))),
      local_model_ids = [''sd15'', ''sdxl''],
      reload_model = (\<lambda>cfg m. (None, cfg\<lparr>loaded_models := [(m, 1)]\<rparr>)),
      submit_job_result = None\<rparr>"

text \<open>A 200 response that carries a job for the loaded model and the given body.\<close>

definition job_response :: "string \<Rightarrow> response" where
  "job_response body =
     \<lparr>truthy = True, status_code = 200, body_text = body,
      json_dict = Inr [(''job_id'', JString ''7''), (''model_id'', JString ''sd15''),
                       (''temp_credentials'', JOther)]\<rparr>"

definition example_startup :: startup where
  "example_startup =
     \<lparr>load_config = Inr example_config,
      initialize_logging_and_args = (\<lambda>cfg. Inr cfg),
      device_count = 2,
      check_cuda = None,
      fetch_and_download_config_files = None,
      compare_model_checksums = None\<rparr>"

section \<open>Lemmas\<close>

subsection \<open>The start of the current run\<close>

lemma find_rev_upt_skip:
  "k \<le> n \<Longrightarrow> (\<forall>j. k \<le> j \<and> j < n \<longrightarrow> \<not> P j) \<Longrightarrow> find P (rev [0..<n]) = find P (rev [0..<k])"
proof (induction n)
  case 0
  then show ?case by simp
next
  case (Suc n)
  show ?case
  proof (cases "k = Suc n")
    case True
    then show ?thesis by simp
  next
    case False
    with Suc.prems have "k \<le> n" "\<not> P n" by auto
    with Suc show ?thesis by simp
  qed
qed

lemma start_index_last_marker:
  assumes "contains RUN_MARKER m" and "\<forall>l \<in> set post. \<not> contains RUN_MARKER l"
  shows "start_index (pre @ m # post) = Inr (Suc (length pre))"
proof -
  let ?ls = "pre @ m # post"
  let ?P = "\<lambda>i. contains RUN_MARKER (?ls ! i)"
  have "\<forall>j. Suc (length pre) \<le> j \<and> j < length ?ls \<longrightarrow> \<not> ?P j"
  proof (intro allI impI)
    fix j assume j: "Suc (length pre) \<le> j \<and> j < length ?ls"
    then have "?ls ! j = post ! (j - Suc (length pre))"
      by (simp add: nth_append nth_Cons')
    moreover from j have "j - Suc (length pre) < length post" by auto
    ultimately show "\<not> ?P j" using assms(2) by simp
  qed
  then have "find ?P (rev [0..<length ?ls]) = find ?P (rev [0..<Suc (length pre)])"
    by (intro find_rev_upt_skip) auto
  also have "\<dots> = Some (length pre)" using assms(1) by simp
  finally show ?thesis by (simp add: start_index_def)
qed

lemma start_index_no_marker:
  "start_index ls = Inl StopIteration \<longleftrightarrow> (\<forall>l \<in> set ls. \<not> contains RUN_MARKER l)"
proof -
  let ?found = "find (\<lambda>i. contains RUN_MARKER (ls ! i)) (rev [0..<length ls])"
  have "?found = None \<longleftrightarrow> (\<forall>i < length ls. \<not> contains RUN_MARKER (ls ! i))"
    by (auto simp: find_None_iff)
  moreover have "start_index ls = Inl StopIteration \<longleftrightarrow> ?found = None"
    by (cases ?found) (simp_all add: start_index_def)
  ultimately show ?thesis
    by (simp add: all_set_conv_all_nth)
qed

lemma start_index_error: "start_index ls = Inl e \<Longrightarrow> e = StopIteration"
  by (simp add: start_index_def split: option.splits)

lemma parse_log_file_current_run:
  assumes "files h path = Some (pre @ m # post)"
    and "contains RUN_MARKER m" and "\<forall>l \<in> set post. \<not> contains RUN_MARKER l"
  shows "parse_log_file h path = aggregate h post"
  using assms by (simp add: parse_log_file_def start_index_last_marker)

subsection \<open>The exceptions of the aggregator\<close>

lemma count_completed_error: "count_completed line m = Inl e \<Longrightarrow> e = ValueError"
  by (auto simp: count_completed_def py_float_def Let_def
           split: option.splits list.splits sum.splits if_splits)

lemma py_int_error: "py_int limit s = Inl e \<Longrightarrow> e = ValueError"
  by (simp add: py_int_def split: if_splits)

lemma register_device_error: "register_device limit line devices = Inl e \<Longrightarrow> e = ValueError"
  by (auto simp: register_device_def dest: py_int_error
           split: option.splits list.splits sum.splits)

lemma job_received_error: "job_received decoder line = Inl e \<Longrightarrow> e = DecoderError"
  by (auto simp: job_received_def split: option.splits list.splits decoding.splits)

lemma process_line_error:
  "process_line h line st = Inl e \<Longrightarrow> e = ValueError \<or> e = DecoderError"
  by (auto simp: process_line_def
           dest: count_completed_error register_device_error job_received_error
           split: sum.splits bool.splits)

lemma process_lines_error:
  "process_lines h ls st = Inl e \<Longrightarrow> e = ValueError \<or> e = DecoderError"
  by (induction ls arbitrary: st) (auto dest: process_line_error split: sum.splits)

lemma avg_latency_returns:
  "avg_latency samples =
     Inr (if samples = [] then 0 else sum_list samples / real (length samples))"
  by (simp add: avg_latency_def truediv_def)

lemma aggregate_error:
  "aggregate h ls = Inl e \<Longrightarrow> e = ValueError \<or> e = DecoderError \<or> e = NVMLError"
  by (auto simp: aggregate_def avg_latency_returns dest: process_lines_error
           split: sum.splits option.splits)

text \<open>
  No input makes \<^verbatim>\<open>parse_log_file\<close> divide by zero: the exceptions it can raise are
  those of opening the file, StopIteration, ValueError from \<^verbatim>\<open>int\<close> or \<^verbatim>\<open>float\<close>, those of
  the decoder that are not caught, and those of NVML.
\<close>

lemma parse_log_file_no_division_by_zero: "parse_log_file h path \<noteq> Inl ZeroDivisionError"
proof
  assume z: "parse_log_file h path = Inl ZeroDivisionError"
  then obtain ls where ls: "files h path = Some ls"
    by (cases "files h path") (auto simp: parse_log_file_def)
  show False
  proof (cases "start_index ls")
    case (Inl e)
    with ls z start_index_error[OF Inl] show False by (simp add: parse_log_file_def)
  next
    case (Inr i)
    with ls z have "aggregate h (drop i ls) = Inl ZeroDivisionError"
      by (simp add: parse_log_file_def)
    from aggregate_error[OF this] show False by simp
  qed
qed

text \<open>Both exceptions of the loop that are not caught can be met.\<close>

lemma py_int_over_the_limit: "py_int 4300 (replicate 4301 CHR ''9'') = Inl ValueError"
  by (simp add: py_int_def)

lemma parse_log_file_decoder_raises:
  "parse_log_file (example_host\<lparr>json_loads := failing_decoder\<rparr>) ''echo.log''
     = Inl DecoderError"
  by code_simp

subsection \<open>The groups of a match\<close>

lemma first_some_map:
  "first_some (map f ks) = Some g \<Longrightarrow> \<exists>k \<in> set ks. f k = Some g"
proof (induction ks)
  case Nil
  then show ?case by simp
next
  case (Cons k ks)
  then show ?case by (cases "f k") auto
qed

lemma match_here_groups: "match_here p s = Some g \<Longrightarrow> length g = n_groups p"
proof (induction p s arbitrary: g rule: match_here.induct)
  case (1 s)
  then show ?case by simp
next
  case (2 a r s)
  then show ?case by (auto split: list.splits if_splits)
next
  case (3 a r s)
  from "3.prems"
  have "first_some (map (\<lambda>k. match_here r (drop k s)) (rev [0..<Suc (run a s)])) = Some g"
    by (simp only: match_here.simps)
  then obtain k where k: "k \<in> set (rev [0..<Suc (run a s)])"
    and m: "match_here r (drop k s) = Some g"
    by (blast dest: first_some_map)
  from "3.IH"[OF k m] show ?case by simp
next
  case (4 a r s)
  from "4.prems"
  have "first_some (map (\<lambda>k. map_option (Cons (take k s)) (match_here r (drop k s)))
          (rev [1..<Suc (run a s)])) = Some g"
    by (simp only: match_here.simps)
  then obtain k where k: "k \<in> set (rev [1..<Suc (run a s)])"
    and m: "map_option (Cons (take k s)) (match_here r (drop k s)) = Some g"
    by (blast dest: first_some_map)
  then obtain g' where g': "match_here r (drop k s) = Some g'" "g = take k s # g'"
    by auto
  from "4.IH"[OF k g'(1)] g'(2) show ?case by simp
qed

lemma search_groups: "search p s = Some g \<Longrightarrow> length g = n_groups p"
  by (induction s) (auto dest: match_here_groups split: option.splits)

lemma n_groups_lits: "n_groups (lits s @ r) = n_groups r"
  by (induction s) (simp_all add: lits_def)

lemma n_groups_job_completed: "n_groups job_completed_pattern = 2"
  using n_groups_lits[of "'' s''" "[]"]
  by (simp add: job_completed_pattern_def n_groups_lits)

lemma search_job_completed:
  "search job_completed_pattern l = Some g \<Longrightarrow> \<exists>request_id total_text. g = [request_id, total_text]"
proof -
  assume "search job_completed_pattern l = Some g"
  then have "length g = 2" by (simp add: search_groups n_groups_job_completed)
  then show ?thesis by (auto simp: length_Suc_conv numeral_2_eq_2)
qed

subsection \<open>The counters of the aggregator\<close>

lemma count_completed_counts:
  "count_completed l m = Inr m' \<Longrightarrow>
     num_jobs m' = num_jobs m \<and>
     success_jobs m' = success_jobs m + (if completion_line l then 1 else 0) \<and>
     jobs_being_processed m' = jobs_being_processed m - (if completion_line l then 1 else 0)"
  by (cases "search job_completed_pattern l")
     (auto simp: count_completed_def completion_line_def dest!: search_job_completed
           split: sum.splits)

lemma process_line_counts:
  assumes "process_line h l st = Inr st'"
  shows "num_jobs (snd st') =
           num_jobs (snd st)
           + (if acceptance_line l \<and> \<not> skipped (json_loads h) l then 1 else 0)"
    and "success_jobs (snd st') =
           success_jobs (snd st)
           + (if completion_line l \<and> \<not> skipped (json_loads h) l then 1 else 0)"
    and "jobs_being_processed (snd st') - num_jobs (snd st') + success_jobs (snd st')
         = jobs_being_processed (snd st) - num_jobs (snd st) + success_jobs (snd st)"
proof -
  from assms obtain devices where
    "register_device (int_max_str_digits h) l (fst st) = Inr devices"
    by (auto simp: process_line_def split: sum.splits)
  moreover from assms obtain b where b: "job_received (json_loads h) l = Inr b"
    by (auto simp: process_line_def split: sum.splits)
  ultimately have p: "process_line h l st =
      (if b then Inr (devices, snd st)
       else case count_completed l (count_processing l (snd st)) of
              Inl e \<Rightarrow> Inl e
            | Inr m \<Rightarrow> Inr (devices, count_warning l m))"
    by (simp add: process_line_def split: bool.splits)
  have s: "skipped (json_loads h) l = b" using b by (simp add: skipped_def)
  show "num_jobs (snd st') =
           num_jobs (snd st)
           + (if acceptance_line l \<and> \<not> skipped (json_loads h) l then 1 else 0)"
    and "success_jobs (snd st') =
           success_jobs (snd st)
           + (if completion_line l \<and> \<not> skipped (json_loads h) l then 1 else 0)"
    and "jobs_being_processed (snd st') - num_jobs (snd st') + success_jobs (snd st')
         = jobs_being_processed (snd st) - num_jobs (snd st) + success_jobs (snd st)"
    using assms p s
    by (auto simp: count_processing_def count_warning_def acceptance_line_def
             dest!: count_completed_counts split: if_splits sum.splits)
qed

lemma process_lines_counts:
  "process_lines h ls st = Inr st' \<Longrightarrow>
     num_jobs (snd st') = num_jobs (snd st) + int (counted (json_loads h) acceptance_line ls) \<and>
     success_jobs (snd st') =
       success_jobs (snd st) + int (counted (json_loads h) completion_line ls) \<and>
     jobs_being_processed (snd st') - num_jobs (snd st') + success_jobs (snd st')
       = jobs_being_processed (snd st) - num_jobs (snd st) + success_jobs (snd st)"
proof (induction ls arbitrary: st)
  case Nil
  then show ?case by (simp add: counted_def)
next
  case (Cons l ls)
  from Cons.prems obtain st1 where l: "process_line h l st = Inr st1"
    and ls: "process_lines h ls st1 = Inr st'"
    by (auto split: sum.splits)
  from Cons.IH[OF ls] process_line_counts[OF l] show ?case
    by (simp add: counted_def)
qed

lemma aggregate_counts:
  assumes "aggregate h ls = Inr r"
  shows "num_jobs r = int (counted (json_loads h) acceptance_line ls)"
    and "success_jobs r = int (counted (json_loads h) completion_line ls)"
    and "jobs_being_processed r = num_jobs r - success_jobs r"
proof -
  from assms obtain st
    where st: "process_lines h ls (Map.empty, initial_metrics) = Inr st"
    and r: "num_jobs r = num_jobs (snd st)" "success_jobs r = success_jobs (snd st)"
      "jobs_being_processed r = jobs_being_processed (snd st)"
    by (auto simp: aggregate_def split: sum.splits option.splits)
  from process_lines_counts[OF st] r
  show "num_jobs r = int (counted (json_loads h) acceptance_line ls)"
    and "success_jobs r = int (counted (json_loads h) completion_line ls)"
    and "jobs_being_processed r = num_jobs r - success_jobs r"
    by (simp_all add: initial_metrics_def)
qed

text \<open>
  Whether \<^verbatim>\<open>int\<close> raises on a device line does not depend on the devices registered so
  far.
\<close>

lemma register_device_isl:
  "isl (register_device limit l devices) = isl (register_device limit l Map.empty)"
  by (simp add: register_device_def split: option.splits list.splits sum.splits)

text \<open>
  On a line that does not match the completion pattern, the loop raises exactly when
  \<^verbatim>\<open>int\<close> or the decoder does, and otherwise leaves the latency samples as they are.
\<close>

lemma process_line_no_completion:
  assumes "search job_completed_pattern l = None"
  shows "(if line_raises h l then isl (process_line h l st)
          else \<exists>st'. process_line h l st = Inr st' \<and> latency (snd st') = latency (snd st))"
proof (cases "register_device (int_max_str_digits h) l (fst st)")
  case (Inl e)
  then have "isl (register_device (int_max_str_digits h) l Map.empty)"
    using register_device_isl[of "int_max_str_digits h" l "fst st"] by simp
  with Inl show ?thesis by (simp add: line_raises_def process_line_def)
next
  case (Inr devices)
  then have r: "\<not> isl (register_device (int_max_str_digits h) l Map.empty)"
    using register_device_isl[of "int_max_str_digits h" l "fst st"] by simp
  show ?thesis
  proof (cases "job_received (json_loads h) l")
    case (Inl e)
    with Inr show ?thesis by (simp add: line_raises_def process_line_def)
  next
    case b: (Inr b)
    with Inr r assms show ?thesis
      by (simp add: line_raises_def process_line_def count_completed_def
            count_processing_def count_warning_def split: bool.splits)
  qed
qed

lemma process_lines_no_completion:
  assumes "\<forall>l \<in> set ls. search job_completed_pattern l = None"
  shows "(if \<exists>l \<in> set ls. line_raises h l then isl (process_lines h ls st)
          else \<exists>st'. process_lines h ls st = Inr st' \<and> latency (snd st') = latency (snd st))"
  using assms
proof (induction ls arbitrary: st)
  case Nil
  then show ?case by simp
next
  case (Cons l ls)
  then have n: "search job_completed_pattern l = None"
    and ns: "\<forall>l \<in> set ls. search job_completed_pattern l = None"
    by simp_all
  show ?case
  proof (cases "line_raises h l")
    case True
    with process_line_no_completion[OF n, of h st] show ?thesis
      by (auto simp: isl_def)
  next
    case False
    with process_line_no_completion[OF n, of h st] obtain st1
      where 1: "process_line h l st = Inr st1" "latency (snd st1) = latency (snd st)"
      by auto
    from Cons.IH[OF ns, of st1] False 1 show ?thesis
      by (auto split: if_splits)
  qed
qed

lemma aggregate_no_completion:
  assumes "\<forall>l \<in> set ls. search job_completed_pattern l = None"
  shows "(\<forall>r. aggregate h ls = Inr r \<longrightarrow> latency r = 0)"
    and "(\<exists>r. aggregate h ls = Inr r) \<longleftrightarrow>
           nvml h \<noteq> None \<and> (\<forall>l \<in> set ls. \<not> line_raises h l)"
proof -
  note p = process_lines_no_completion[OF assms, of h "(Map.empty, initial_metrics)"]
  show "\<forall>r. aggregate h ls = Inr r \<longrightarrow> latency r = 0"
  proof (intro allI impI)
    fix r assume a: "aggregate h ls = Inr r"
    then obtain st where st: "process_lines h ls (Map.empty, initial_metrics) = Inr st"
      by (auto simp: aggregate_def split: sum.splits)
    with p have "latency (snd st) = []"
      by (auto simp: initial_metrics_def split: if_splits)
    with a st show "latency r = 0"
      by (auto simp: aggregate_def avg_latency_def split: option.splits)
  qed
  show "(\<exists>r. aggregate h ls = Inr r) \<longleftrightarrow>
           nvml h \<noteq> None \<and> (\<forall>l \<in> set ls. \<not> line_raises h l)"
  proof (cases "\<exists>l \<in> set ls. line_raises h l")
    case True
    with p have "isl (process_lines h ls (Map.empty, initial_metrics))" by simp
    then have "isl (aggregate h ls)" by (auto simp: aggregate_def isl_def)
    with True show ?thesis by (auto simp: isl_def)
  next
    case False
    with p obtain st where "process_lines h ls (Map.empty, initial_metrics) = Inr st"
      by auto
    with False show ?thesis
      by (auto simp: aggregate_def avg_latency_returns split: option.splits)
  qed
qed

subsection \<open>Splitting at the warning indicator\<close>

lemma str_split_no_sep: "\<not> contains sep s \<Longrightarrow> str_split sep s = [s]"
  by (induction s) auto

lemma contains_prefix: "prefix n s \<Longrightarrow> contains n s"
  by (cases s) auto

lemma contains_append: "contains n (a @ n @ b)"
proof (induction a)
  case Nil
  then show ?case by (simp add: contains_prefix)
next
  case (Cons c a)
  then show ?case by simp
qed

text \<open>
  The indicator cannot overlap itself: its first character occurs in it only once.
\<close>

lemma prefix_overlap:
  assumes "prefix warning_indicator (x @ warning_indicator @ s)" and "x \<noteq> []"
  shows "prefix warning_indicator x"
proof (rule ccontr)
  assume n: "\<not> prefix warning_indicator x"
  from assms(1) n obtain us where us: "warning_indicator = x @ us"
    and p: "prefix us (warning_indicator @ s)"
    by (auto simp: prefix_append)
  from n us have "us \<noteq> []" by auto
  then obtain u us' where u: "us = u # us'" by (cases us) auto
  with p have "u = CHR ''W''" by (simp add: warning_indicator_def)
  moreover have "u \<in> set (tl warning_indicator)"
  proof -
    from assms(2) obtain a l where "x = a # l" by (cases x) auto
    with us u have "tl warning_indicator = tl (a # l @ u # us')"
      by (intro arg_cong[of _ _ tl]) simp
    then show ?thesis by simp
  qed
  ultimately show False by (simp add: warning_indicator_def)
qed

lemma str_split_first:
  "\<not> contains warning_indicator pre \<Longrightarrow>
     str_split warning_indicator (pre @ warning_indicator @ s) =
       pre # str_split warning_indicator s"
proof (induction pre)
  case Nil
  then show ?case by (simp add: warning_indicator_def)
next
  case (Cons c p)
  then have np: "\<not> prefix warning_indicator (c # p)" and nc: "\<not> contains warning_indicator p"
    by auto
  have "\<not> prefix warning_indicator ((c # p) @ warning_indicator @ s)"
    using prefix_overlap[of "c # p" s] np by blast
  with Cons.IH[OF nc] show ?case by simp
qed

lemma warning_message_between:
  assumes "\<not> contains warning_indicator pre" and "\<not> contains warning_indicator mid"
    and "rest = [] \<or> prefix warning_indicator rest"
  shows "warning_message (pre @ warning_indicator @ mid @ rest) = Inr (strip_quotes mid)"
proof -
  have "\<exists>ps. str_split warning_indicator (mid @ rest) = mid # ps"
  proof (cases "rest = []")
    case True
    with assms(2) show ?thesis by (simp add: str_split_no_sep)
  next
    case False
    with assms(3) obtain t where "rest = warning_indicator @ t" by (auto simp: prefix_def)
    with assms(2) show ?thesis by (simp add: str_split_first)
  qed
  then show ?thesis using assms(1)
    by (auto simp: warning_message_def str_split_first)
qed

subsection \<open>The heartbeat and the request\<close>

lemmas world_ops = now_def tick_def emit_def post_request_def reply_def

lemma attach_heartbeat_due:
  "due cfg w \<Longrightarrow> hardware w = Some hw \<Longrightarrow>
     attach_heartbeat cfg rq w =
       (Inr (rq\<lparr>req_hardware := Some hw, req_version := Some (version cfg)\<rparr>),
        cfg\<lparr>last_heartbeat := clock w (Suc (reads w))\<rparr>,
        emit (Logged ''DEBUG'' ''Heartbeat updated at {} with hardware {} and version {} for miner ID {}.'')
          (tick (tick w)))"
  by (simp add: attach_heartbeat_def due_def Let_def now_def tick_def)

lemma attach_heartbeat_due_fails:
  "due cfg w \<Longrightarrow> hardware w = None \<Longrightarrow>
     attach_heartbeat cfg rq w = (Inl CollaboratorError, cfg, tick w)"
  by (simp add: attach_heartbeat_def due_def Let_def tick_def)

lemma attach_heartbeat_not_due:
  "\<not> due cfg w \<Longrightarrow> attach_heartbeat cfg rq w = (Inr rq, cfg, tick w)"
  by (simp add: attach_heartbeat_def due_def Let_def)

lemma send_config:
  "attach_heartbeat cfg
     \<lparr>req_miner_id = miner_id cfg, req_model_id = m, req_min_deadline = d,
      req_hardware = None, req_version = None\<rparr> w = (r, cfg1, w1) \<Longrightarrow>
   fst (snd (send_miner_request cfg m d w)) = cfg1"
  by (cases r)
     (simp_all add: send_miner_request_def Let_def split: post_outcome.splits sum.splits)

lemma send_last_heartbeat:
  "last_heartbeat (fst (snd (send_miner_request cfg m d w))) =
     (if due cfg w \<and> hardware w \<noteq> None then clock w (Suc (reads w)) else last_heartbeat cfg)"
proof (cases "due cfg w")
  case True
  show ?thesis
  proof (cases "hardware w")
    case None
    from send_config[OF attach_heartbeat_due_fails[OF True None]] True None
    show ?thesis by simp
  next
    case (Some hw)
    from send_config[OF attach_heartbeat_due[OF True Some]] True Some
    show ?thesis by simp
  qed
next
  case False
  from send_config[OF attach_heartbeat_not_due[OF False]] False show ?thesis by simp
qed

lemma requests_posted_simps [simp]:
  "requests_posted (emit (Logged l t) w) = requests_posted w"
  "requests_posted (emit (Printed t) w) = requests_posted w"
  "requests_posted (emit (Submitted a b c) w) = requests_posted w"
  "requests_posted (tick w) = requests_posted w"
  "requests_posted (post_request url (Request rq) w) = requests_posted w @ [rq]"
  by (simp_all add: requests_posted_def emit_def tick_def post_request_def List.map_filter_def)

lemma surface_warning_requests:
  "surface_warning response w = Inr w' \<Longrightarrow> requests_posted w' = requests_posted w"
  by (auto simp: surface_warning_def split: option.splits if_splits sum.splits)

lemma transmit_requests_posted:
  assumes "attach_heartbeat cfg
     \<lparr>req_miner_id = miner_id cfg, req_model_id = m, req_min_deadline = d,
      req_hardware = None, req_version = None\<rparr> w = (Inr rq, cfg1, w1)"
  shows "requests_posted (snd (snd (send_miner_request cfg m d w))) = requests_posted w1 @ [rq]"
  using assms
  by (auto simp: send_miner_request_def Let_def dest: surface_warning_requests
           split: post_outcome.splits sum.splits)

lemma send_requests_posted:
  assumes "due cfg w \<longrightarrow> hardware w \<noteq> None"
  shows "requests_posted (snd (snd (send_miner_request cfg m d w))) =
     requests_posted w @
       [\<lparr>req_miner_id = miner_id cfg, req_model_id = m, req_min_deadline = d,
         req_hardware = (if due cfg w then hardware w else None),
         req_version = (if due cfg w then Some (version cfg) else None)\<rparr>]"
proof (cases "due cfg w")
  case True
  with assms obtain hw where hw: "hardware w = Some hw" by auto
  from transmit_requests_posted[OF attach_heartbeat_due[OF True hw]] True hw
  show ?thesis by simp
next
  case False
  from transmit_requests_posted[OF attach_heartbeat_not_due[OF False]] False
  show ?thesis by simp
qed

lemma attach_heartbeat_frame:
  "attach_heartbeat cfg rq w = (r, cfg1, w1) \<Longrightarrow>
     reply w1 = reply w \<and> log_response w1 = log_response w"
  by (auto simp: attach_heartbeat_def Let_def world_ops split: if_splits option.splits)

lemma send_warning:
  assumes "reply w = Returns (Some r)" and "due cfg w \<longrightarrow> hardware w \<noteq> None"
    and "truthy r" and "contains warning_indicator (body_text r)"
    and "warning_message (body_text r) = Inr t"
  shows "last (trace (snd (snd (send_miner_request cfg m d w)))) = Printed (''WARNING: '' @ t)"
    and "map_sum id fst (fst (send_miner_request cfg m d w)) = log_response w (Some r)"
proof -
  let ?rq0 = "\<lparr>req_miner_id = miner_id cfg, req_model_id = m, req_min_deadline = d,
      req_hardware = None, req_version = None\<rparr>"
  obtain rq cfg1 w1 where a: "attach_heartbeat cfg ?rq0 w = (Inr rq, cfg1, w1)"
  proof (cases "due cfg w")
    case True
    with assms(2) obtain hw where "hardware w = Some hw" by auto
    from attach_heartbeat_due[OF True this] that show ?thesis by blast
  next
    case False
    from attach_heartbeat_not_due[OF False] that show ?thesis by blast
  qed
  from attach_heartbeat_frame[OF a] assms(1)
  have f: "reply w1 = Returns (Some r)" "log_response w1 = log_response w" by simp_all
  then have r: "reply (tick w1) = Returns (Some r)" by (simp add: reply_def tick_def)
  have s: "surface_warning (Some r) w' = Inr (emit (Printed (''WARNING: '' @ t)) w')" for w'
    using assms(3-5) by (simp add: surface_warning_def)
  show "last (trace (snd (snd (send_miner_request cfg m d w)))) = Printed (''WARNING: '' @ t)"
    using a r s by (simp add: send_miner_request_def Let_def emit_def split: sum.splits)
  show "map_sum id fst (fst (send_miner_request cfg m d w)) = log_response w (Some r)"
    using a r s f(2)
    by (simp add: send_miner_request_def Let_def emit_def tick_def post_request_def split: sum.splits)
qed

subsection \<open>The reload timer\<close>

text \<open>
  Whenever \<^verbatim>\<open>check_and_reload_model\<close> returns, it returns the current time if the
  interval has elapsed and its argument if not, whatever the signal call did.
\<close>

lemma check_and_reload_model_returns:
  "check_and_reload_model cfg last_signal_time w = (Inr t, cfg', w') \<Longrightarrow>
     t = (if now w - last_signal_time \<ge> reload_interval cfg then now w else last_signal_time)"
  by (auto simp: check_and_reload_model_def Let_def returned_signal_time_def
           split: post_outcome.splits option.splits sum.splits if_splits prod.splits)

lemma reply_frame:
  "reply (tick w) = reply w"
  "reply (emit e w) = reply w"
  by (simp_all add: reply_def tick_def emit_def)

lemma applicable_frame:
  "applicable cfg (tick w) v = applicable cfg w v"
  "applicable cfg (emit e w) v = applicable cfg w v"
  "applicable cfg (post_request url p w) v = applicable cfg w v"
  by (simp_all add: applicable_def tick_def emit_def post_request_def
        split: option.splits jvalue.splits)

lemma check_and_reload_model_no_op:
  assumes "reload_interval cfg \<le> now w - last_signal_time" and "signal_not_applied cfg w"
  shows "fst (check_and_reload_model cfg last_signal_time w) = Inr (now w)"
proof (cases "reply w")
  case Raises
  with assms(2) show ?thesis by (simp add: signal_not_applied_def)
next
  case (Returns response)
  show ?thesis
  proof (cases response)
    case None
    with Returns assms(1) show ?thesis
      by (simp add: check_and_reload_model_def Let_def returned_signal_time_def reply_frame
          applicable_frame)
  next
    case (Some r)
    show ?thesis
    proof (cases "truthy r \<and> status_code r = 200")
      case False
      with Returns Some assms(1) show ?thesis
        by (auto simp: check_and_reload_model_def Let_def returned_signal_time_def reply_frame
          applicable_frame)
    next
      case True
      with Returns Some assms(2) obtain d where d: "json_dict r = Inr d"
        and n: "applicable cfg w (dict_get d ''model_id'') = None"
        by (cases "json_dict r") (auto simp: signal_not_applied_def)
      with True Returns Some assms(1) show ?thesis
        by (simp add: check_and_reload_model_def Let_def returned_signal_time_def reply_frame
          applicable_frame)
    qed
  qed
qed

subsection \<open>The job poll\<close>

lemma process_jobs_exit:
  "local_model_ids w = [] \<Longrightarrow>
     process_jobs cfg w =
       (Inl (SystemExit 0), cfg, emit (Logged ''DEBUG'' ''No models found. Exiting...'') w)"
  by (simp add: process_jobs_def)

lemma process_jobs_polls:
  assumes "local_model_ids w \<noteq> []" and "due cfg w \<longrightarrow> hardware w \<noteq> None"
  shows "requests_posted (snd (snd (process_jobs cfg w))) =
     requests_posted w @
       [\<lparr>req_miner_id = miner_id cfg,
         req_model_id = (if first_key (loaded_loras cfg) \<noteq> None then first_key (loaded_loras cfg)
                         else first_key (loaded_models cfg)),
         req_min_deadline = min_deadline cfg,
         req_hardware = (if due cfg w then hardware w else None),
         req_version = (if due cfg w then Some (version cfg) else None)\<rparr>]"
proof -
  let ?m = "if first_key (loaded_loras cfg) \<noteq> None then first_key (loaded_loras cfg)
            else first_key (loaded_models cfg)"
  obtain res cfg1 w1 where s: "send_miner_request cfg ?m (min_deadline cfg) w = (res, cfg1, w1)"
    by (cases "send_miner_request cfg ?m (min_deadline cfg) w") auto
  have "requests_posted (snd (snd (process_jobs cfg w))) = requests_posted w1"
    using assms(1) s
    by (auto simp: process_jobs_def Let_def split: sum.splits option.splits prod.splits)
  moreover have "requests_posted w1 =
      requests_posted (snd (snd (send_miner_request cfg ?m (min_deadline cfg) w)))"
    using s by simp
  ultimately show ?thesis using send_requests_posted[OF assms(2), of ?m "min_deadline cfg"]
    by simp
qed

lemma warning_message_error: "warning_message body = Inl e \<Longrightarrow> e = IndexError"
  by (auto simp: warning_message_def split: list.splits)

lemma surface_warning_error: "surface_warning response w = Inl e \<Longrightarrow> e = IndexError"
  by (auto simp: surface_warning_def dest: warning_message_error
           split: option.splits if_splits sum.splits)

lemma surface_warning_frame:
  "surface_warning response w = Inr w' \<Longrightarrow>
     log_response w' = log_response w \<and> submit_job_result w' = submit_job_result w"
  by (auto simp: surface_warning_def emit_def split: option.splits if_splits sum.splits)

lemma attach_heartbeat_error:
  "attach_heartbeat cfg rq w = (Inl e, cfg1, w1) \<Longrightarrow> e = CollaboratorError"
  by (auto simp: attach_heartbeat_def Let_def split: if_splits option.splits)

lemma attach_heartbeat_submit:
  "attach_heartbeat cfg rq w = (r, cfg1, w1) \<Longrightarrow> submit_job_result w1 = submit_job_result w"
  by (auto simp: attach_heartbeat_def Let_def world_ops split: if_splits option.splits)

text \<open>
  \<^verbatim>\<open>send_miner_request\<close> raises only what a collaborator raises, or IndexError, and
  leaves the collaborators as they are.
\<close>

lemma send_miner_request_error:
  assumes "fst (send_miner_request cfg m d w) = Inl e"
  shows "e = CollaboratorError \<or> e = IndexError \<or> (\<exists>response. log_response w response = Inl e)"
proof -
  let ?rq = "\<lparr>req_miner_id = miner_id cfg, req_model_id = m, req_min_deadline = d,
      req_hardware = None, req_version = None\<rparr>"
  obtain r cfg1 w1 where a: "attach_heartbeat cfg ?rq w = (r, cfg1, w1)"
    by (cases "attach_heartbeat cfg ?rq w") auto
  from attach_heartbeat_frame[OF a] have l: "log_response w1 = log_response w" by simp
  show ?thesis
  proof (cases r)
    case (Inl e')
    with a assms attach_heartbeat_error[of cfg ?rq w e' cfg1 w1] show ?thesis
      by (simp add: send_miner_request_def)
  next
    case (Inr rq)
    with a assms l show ?thesis
      by (auto simp: send_miner_request_def Let_def tick_def post_request_def emit_def
               dest: surface_warning_error dest!: surface_warning_frame
               split: post_outcome.splits sum.splits)
  qed
qed

lemma send_miner_request_submit:
  "submit_job_result (world_after (send_miner_request cfg m d w)) = submit_job_result w"
proof -
  let ?rq = "\<lparr>req_miner_id = miner_id cfg, req_model_id = m, req_min_deadline = d,
      req_hardware = None, req_version = None\<rparr>"
  obtain r cfg1 w1 where a: "attach_heartbeat cfg ?rq w = (r, cfg1, w1)"
    by (cases "attach_heartbeat cfg ?rq w") auto
  from attach_heartbeat_submit[OF a] have s: "submit_job_result w1 = submit_job_result w" .
  show ?thesis
  proof (cases r)
    case (Inl e')
    with a s show ?thesis by (simp add: send_miner_request_def)
  next
    case (Inr rq)
    with a s show ?thesis
      by (auto simp: send_miner_request_def Let_def tick_def post_request_def emit_def
               dest!: surface_warning_frame
               split: post_outcome.splits sum.splits)
  qed
qed

lemma subscript_error: "subscript d k = Inl e \<Longrightarrow> e = KeyError"
  by (simp add: subscript_def split: option.splits)

text \<open>
  With a local model id, \<^verbatim>\<open>process_jobs\<close> does not end the process unless
  \<^verbatim>\<open>log_response\<close> or \<^verbatim>\<open>submit_job_result\<close> does.
\<close>

lemma process_jobs_no_exit:
  assumes "local_model_ids w \<noteq> []"
    and "\<forall>response code. log_response w response \<noteq> Inl (SystemExit code)"
    and "\<forall>code. submit_job_result w \<noteq> Some (SystemExit code)"
  shows "fst (process_jobs cfg w) \<noteq> Inl (SystemExit c)"
proof
  assume x: "fst (process_jobs cfg w) = Inl (SystemExit c)"
  let ?m = "if first_key (loaded_loras cfg) \<noteq> None then first_key (loaded_loras cfg)
            else first_key (loaded_models cfg)"
  obtain res cfg1 w1 where s: "send_miner_request cfg ?m (min_deadline cfg) w = (res, cfg1, w1)"
    by (cases "send_miner_request cfg ?m (min_deadline cfg) w") auto
  from send_miner_request_submit[of cfg ?m "min_deadline cfg" w] s
  have sub: "submit_job_result w1 = submit_job_result w" by simp
  show False
  proof (cases res)
    case (Inl e)
    with s x assms(1) have "e = SystemExit c" by (simp add: process_jobs_def Let_def)
    moreover from s Inl send_miner_request_error[of cfg ?m "min_deadline cfg" w e]
    have "e = CollaboratorError \<or> e = IndexError \<or> (\<exists>response. log_response w response = Inl e)"
      by simp
    ultimately show False using assms(2) by auto
  next
    case (Inr jl)
    with s x assms(1) assms(3) sub show False
      by (auto simp: process_jobs_def Let_def emit_def tick_def
               dest: subscript_error
               split: option.splits if_splits sum.splits prod.splits)
  qed
qed

text \<open>
  At the level of the loop: when the reload check returns and there is no local model
  id, the pass ends the process with status 0.
\<close>

lemma local_model_ids_frame:
  "local_model_ids (tick w) = local_model_ids w"
  "local_model_ids (emit e w) = local_model_ids w"
  "local_model_ids (post_request url p w) = local_model_ids w"
  by (simp_all add: tick_def emit_def post_request_def)

lemma local_model_ids_reload:
  "local_model_ids (world_after (case x of (Some e, cfg') \<Rightarrow> (Inl e, cfg', w) | (None, cfg') \<Rightarrow> (Inr (f cfg'), cfg', w)))
     = local_model_ids w"
  by (cases x) (simp split: option.splits)

lemma check_and_reload_model_local_ids:
  "local_model_ids (world_after (check_and_reload_model cfg t w)) = local_model_ids w"
proof (cases "reload_interval cfg \<le> now w - t")
  case False
  then show ?thesis
    by (simp add: check_and_reload_model_def Let_def local_model_ids_frame)
next
  case True
  show ?thesis
  proof (cases "reply w")
    case Raises
    with True show ?thesis
      by (simp add: check_and_reload_model_def Let_def local_model_ids_frame reply_frame)
  next
    case (Returns response)
    show ?thesis
    proof (cases response)
      case None
      with True Returns show ?thesis
        by (simp add: check_and_reload_model_def Let_def local_model_ids_frame reply_frame)
    next
      case (Some r)
      show ?thesis
      proof (cases "truthy r \<and> status_code r = 200")
        case False
        with True Returns Some show ?thesis
          by (auto simp: check_and_reload_model_def Let_def local_model_ids_frame reply_frame)
      next
        case ok: True
        show ?thesis
        proof (cases "json_dict r")
          case (Inl e)
          with True Returns Some ok show ?thesis
            by (simp add: check_and_reload_model_def Let_def local_model_ids_frame reply_frame)
        next
          case (Inr d)
          show ?thesis
          proof (cases "applicable cfg w (dict_get d ''model_id'')")
            case None
            with True Returns Some ok Inr show ?thesis
              by (simp add: check_and_reload_model_def Let_def local_model_ids_frame
                    reply_frame applicable_frame)
          next
            case (Some m)
            with True Returns \<open>response = Some r\<close> ok Inr show ?thesis
              by (simp add: check_and_reload_model_def Let_def local_model_ids_frame
                    reply_frame applicable_frame local_model_ids_reload)
          qed
        qed
      qed
    qed
  qed
qed

lemma worker_pass_exit:
  assumes "fst (check_and_reload_model cfg t w) = Inr t'" and "local_model_ids w = []"
  shows "fst (worker_pass cfg t w) = Inl (SystemExit 0)"
proof -
  obtain cfg1 w1 where c: "check_and_reload_model cfg t w = (Inr t', cfg1, w1)"
    using assms(1) by (cases "check_and_reload_model cfg t w") auto
  with check_and_reload_model_local_ids[of cfg t w] assms(2)
  have "local_model_ids w1 = []" by simp
  from process_jobs_exit[OF this, of cfg1] c show ?thesis
    by (simp add: worker_pass_def caught_def)
qed

text \<open>
  When the device count suffices and no collaborator raises, the entry point starts the
  two threads, writes the run marker and starts one worker for each device index.
\<close>

lemma entry_point_starts_workers:
  assumes "load_config s = Inr cfg0" and "initialize_logging_and_args s cfg0 = Inr cfg"
    and "num_cuda_devices cfg \<le> device_count s" and "check_cuda s = None"
    and "fetch_and_download_config_files s = None"
    and "skip_checksum cfg \<or> compare_model_checksums s = None"
  shows "entry_point s =
     (Joining,
      [ThreadStarted ''model_updater.start_scheduled_updates'', Logged ''INFO'' RUN_MARKER,
       ThreadStarted ''display_data_thread'']
      @ map ProcessStarted [0..<nat (num_cuda_devices cfg)])"
  using assms by (auto simp: entry_point_def start_workers_def)

section \<open>The properties\<close>

subsection \<open>The reload timer\<close>

text \<open>
  Claim C1, as amended. When the reload interval has elapsed and the signal call
  returns without an assignment being applied (it returns \<^verbatim>\<open>None\<close>, a response that is
  falsy or not a 200, or a model id that is unavailable locally or already loaded),
  \<^verbatim>\<open>check_and_reload_model\<close> returns the current time, not its argument: the \<^verbatim>\<open>return\<close>
  statement advances the timer whenever the interval has elapsed.
\<close>

theorem check_and_reload_model_timer:
  assumes "reload_interval cfg \<le> now w - last_signal_time" and "signal_not_applied cfg w"
  shows "fst (check_and_reload_model cfg last_signal_time w) = Inr (now w)"
  using assms by (rule check_and_reload_model_no_op)

text \<open>
  At a signal that answers 200 with the model that is already loaded: the timer moves
  from 0 to the current time, 1000.
\<close>

theorem check_and_reload_model_timer_witness:
  "signal_not_applied example_config (example_world (Returns (Some (job_response []))))
   \<and> fst (check_and_reload_model example_config 0
             (example_world (Returns (Some (job_response []))))) = Inr 1000"
proof -
  let ?w = "example_world (Returns (Some (job_response [])))"
  have i: "reload_interval example_config \<le> now ?w - 0" by code_simp
  have n: "signal_not_applied example_config ?w" by code_simp
  have t: "now ?w = 1000" by code_simp
  from check_and_reload_model_timer[OF i n] n t show ?thesis by simp
qed

text \<open>
  Claim C1 as stated fails: the interval has elapsed, the signal call returns \<^verbatim>\<open>None\<close>,
  and the returned time is 1000 where the argument was 0.
\<close>

theorem check_and_reload_model_failed_signal_advances_timer:
  "reload_interval example_config \<le> now (example_world (Returns None)) - 0
   \<and> reply (example_world (Returns None)) = Returns None
   \<and> fst (check_and_reload_model example_config 0 (example_world (Returns None))) = Inr 1000
   \<and> (1000::real) \<noteq> 0"
  by code_simp

subsection \<open>The heartbeat\<close>

text \<open>
  Claim C2, as amended. \<^verbatim>\<open>send_miner_request\<close> sets \<^verbatim>\<open>config.last_heartbeat\<close> when it
  decides to attach the hardware description, before the request is posted: if sixty
  seconds have passed and \<^verbatim>\<open>get_hardware_description\<close> returns, the stored time is the
  clock's next reading, whatever \<^verbatim>\<open>post_request\<close> then does (the statement holds for
  every \<open>replies\<close>); otherwise it is unchanged.
\<close>

theorem send_miner_request_heartbeat_update:
  "last_heartbeat (config_after (send_miner_request cfg model_id deadline w)) =
     (if 60 \<le> now w - last_heartbeat cfg \<and> hardware w \<noteq> None
      then clock w (Suc (reads w)) else last_heartbeat cfg)"
  using send_last_heartbeat[of cfg model_id deadline w] by (simp add: due_def)

text \<open>At a post that returns \<^verbatim>\<open>None\<close>: the heartbeat moves from 0 to 1001.\<close>

theorem send_miner_request_heartbeat_update_witness:
  "last_heartbeat (config_after (send_miner_request example_config (Some ''sd15'') 1
      (example_world (Returns None)))) = 1001"
proof -
  let ?w = "example_world (Returns None)"
  have "60 \<le> now ?w - last_heartbeat example_config \<and> hardware ?w \<noteq> None" by code_simp
  moreover have "clock ?w (Suc (reads ?w)) = 1001" by code_simp
  ultimately show ?thesis
    using send_miner_request_heartbeat_update[of example_config "Some ''sd15''" 1 ?w]
    by simp
qed

text \<open>
  Claim C2 as stated fails: the interval has elapsed, \<^verbatim>\<open>post_request\<close> raises and the
  call fails, and the stored heartbeat has moved from 0 to 1001.
\<close>

theorem heartbeat_updated_though_send_failed:
  "60 \<le> now (example_world Raises) - last_heartbeat example_config
   \<and> reply (example_world Raises) = Raises
   \<and> fst (send_miner_request example_config (Some ''sd15'') 1 (example_world Raises))
       = Inl CollaboratorError
   \<and> last_heartbeat example_config = 0
   \<and> last_heartbeat (config_after (send_miner_request example_config (Some ''sd15'') 1
        (example_world Raises))) = 1001"
  by code_simp

text \<open>
  Claim C8. A call of \<^verbatim>\<open>send_miner_request\<close> whose hardware description is available
  posts one request, and that request carries the hardware description if and only if
  \<open>now - last_heartbeat \<ge> 60\<close>; when it does, \<^verbatim>\<open>last_heartbeat\<close> becomes the time read at
  the update. With the configuration that a call leaves, every later call, in any
  world, whose clock reads less than sixty seconds after that \<^verbatim>\<open>last_heartbeat\<close> attaches
  nothing and leaves \<^verbatim>\<open>last_heartbeat\<close> as it is, so the same holds for the call after it.
\<close>

theorem heartbeat_decision:
  assumes "hardware w \<noteq> None"
  shows
    "(\<exists>rq. requests_posted (world_after (send_miner_request cfg model_id deadline w))
             = requests_posted w @ [rq]
           \<and> (req_hardware rq \<noteq> None \<longleftrightarrow> 60 \<le> now w - last_heartbeat cfg))
     \<and> (60 \<le> now w - last_heartbeat cfg \<longrightarrow>
          last_heartbeat (config_after (send_miner_request cfg model_id deadline w))
            = clock w (Suc (reads w)))
     \<and> (\<forall>model_id' deadline' w'.
          now w' - last_heartbeat (config_after (send_miner_request cfg model_id deadline w)) < 60
          \<longrightarrow>
          (\<exists>rq. requests_posted
                   (world_after (send_miner_request
                      (config_after (send_miner_request cfg model_id deadline w))
                      model_id' deadline' w'))
                 = requests_posted w' @ [rq]
               \<and> req_hardware rq = None)
          \<and> last_heartbeat
                (config_after (send_miner_request
                   (config_after (send_miner_request cfg model_id deadline w))
                   model_id' deadline' w'))
              = last_heartbeat (config_after (send_miner_request cfg model_id deadline w)))"
proof (intro conjI allI impI)
  have "due cfg w \<longrightarrow> hardware w \<noteq> None" using assms by simp
  from send_requests_posted[OF this, of model_id deadline] assms
  show "\<exists>rq. requests_posted (world_after (send_miner_request cfg model_id deadline w))
             = requests_posted w @ [rq]
           \<and> (req_hardware rq \<noteq> None \<longleftrightarrow> 60 \<le> now w - last_heartbeat cfg)"
    by (auto simp: due_def)
next
  assume "60 \<le> now w - last_heartbeat cfg"
  with assms send_last_heartbeat[of cfg model_id deadline w]
  show "last_heartbeat (config_after (send_miner_request cfg model_id deadline w))
          = clock w (Suc (reads w))"
    by (simp add: due_def)
next
  fix model_id' deadline' w'
  let ?left = "config_after (send_miner_request cfg model_id deadline w)"
  assume "now w' - last_heartbeat ?left < 60"
  then have n: "\<not> due ?left w'" by (simp add: due_def)
  then have "due ?left w' \<longrightarrow> hardware w' \<noteq> None" by simp
  from send_requests_posted[OF this, of model_id' deadline'] n
  show "\<exists>rq. requests_posted (world_after (send_miner_request ?left model_id' deadline' w'))
                 = requests_posted w' @ [rq]
               \<and> req_hardware rq = None"
    by simp
  from n send_last_heartbeat[of ?left model_id' deadline' w']
  show "last_heartbeat (config_after (send_miner_request ?left model_id' deadline' w'))
          = last_heartbeat ?left"
    by simp
qed

text \<open>
  Two calls in a row: the first, 1000 seconds after the last heartbeat, attaches the
  hardware description; the second, two seconds after the update, attaches nothing.
\<close>

theorem heartbeat_decision_witness:
  "hardware (example_world (Returns None)) \<noteq> None
   \<and> map req_hardware
       (requests_posted (world_after (send_miner_request
          (config_after (send_miner_request example_config (Some ''sd15'') 1
             (example_world (Returns None))))
          (Some ''sd15'') 1
          (world_after (send_miner_request example_config (Some ''sd15'') 1
             (example_world (Returns None)))))))
     = [Some ''NVIDIA GeForce RTX 4090'', None]"
proof -
  let ?w = "example_world (Returns None)"
  let ?r = "send_miner_request example_config (Some ''sd15'') 1 ?w"
  have h: "hardware ?w \<noteq> None" by code_simp
  have d: "60 \<le> now ?w - last_heartbeat example_config" by code_simp
  have e: "requests_posted ?w = []" by code_simp
  have hw: "hardware ?w = Some ''NVIDIA GeForce RTX 4090''" by code_simp
  have l: "now (world_after ?r) - last_heartbeat (config_after ?r) < 60" by code_simp
  note t = heartbeat_decision[OF h, of example_config "Some ''sd15''" 1]
  from t d e obtain rq1 where 1: "requests_posted (world_after ?r) = [rq1]"
    and a: "req_hardware rq1 \<noteq> None"
    by auto
  have "map req_hardware (requests_posted (world_after ?r)) = [hardware ?w]"
    using send_requests_posted[of example_config ?w "Some ''sd15''" 1] h d e
    by (simp add: due_def)
  with 1 hw have b: "req_hardware rq1 = Some ''NVIDIA GeForce RTX 4090''" by simp
  from t l obtain rq2 where
    "requests_posted (world_after (send_miner_request (config_after ?r) (Some ''sd15'') 1
        (world_after ?r))) = requests_posted (world_after ?r) @ [rq2]"
    "req_hardware rq2 = None"
    by blast
  with 1 b h show ?thesis by simp
qed

subsection \<open>The job poll\<close>

text \<open>
  Claim C3, as amended. One pass of \<^verbatim>\<open>process_jobs\<close> ends the process, with status 0 and
  without posting a request, when \<^verbatim>\<open>get_local_model_ids\<close> returns no model id, whatever is
  loaded. When neither an adapter nor a base model is loaded and there are local model
  ids, it posts a job request whose model id is \<^verbatim>\<open>None\<close>; and whenever there are local
  model ids it does not end the process, unless \<^verbatim>\<open>log_response\<close> or \<^verbatim>\<open>submit_job_result\<close>
  itself raises SystemExit. Lemma \<open>worker_pass_exit\<close> carries the first part to a pass of
  the loop.
\<close>

theorem process_jobs_exit_or_poll:
  "(local_model_ids w = [] \<longrightarrow>
      fst (process_jobs cfg w) = Inl (SystemExit 0)
      \<and> requests_posted (world_after (process_jobs cfg w)) = requests_posted w)
   \<and> (local_model_ids w \<noteq> [] \<and> loaded_models cfg = [] \<and> loaded_loras cfg = []
        \<and> (60 \<le> now w - last_heartbeat cfg \<longrightarrow> hardware w \<noteq> None) \<longrightarrow>
      (\<exists>rq. requests_posted (world_after (process_jobs cfg w)) = requests_posted w @ [rq]
            \<and> req_model_id rq = None))
   \<and> (local_model_ids w \<noteq> []
        \<and> (\<forall>response code. log_response w response \<noteq> Inl (SystemExit code))
        \<and> (\<forall>code. submit_job_result w \<noteq> Some (SystemExit code)) \<longrightarrow>
      (\<forall>code. fst (process_jobs cfg w) \<noteq> Inl (SystemExit code)))"
proof (intro conjI impI allI)
  assume "local_model_ids w = []"
  from process_jobs_exit[OF this, of cfg]
  show "fst (process_jobs cfg w) = Inl (SystemExit 0)"
    and "requests_posted (world_after (process_jobs cfg w)) = requests_posted w"
    by simp_all
next
  assume a: "local_model_ids w \<noteq> [] \<and> loaded_models cfg = [] \<and> loaded_loras cfg = []
        \<and> (60 \<le> now w - last_heartbeat cfg \<longrightarrow> hardware w \<noteq> None)"
  then have "due cfg w \<longrightarrow> hardware w \<noteq> None" by (simp add: due_def)
  from process_jobs_polls[OF _ this, of ] a
  show "\<exists>rq. requests_posted (world_after (process_jobs cfg w)) = requests_posted w @ [rq]
            \<and> req_model_id rq = None"
    by (simp add: first_key_def)
next
  fix code
  assume "local_model_ids w \<noteq> []
        \<and> (\<forall>response code. log_response w response \<noteq> Inl (SystemExit code))
        \<and> (\<forall>code. submit_job_result w \<noteq> Some (SystemExit code))"
  then show "fst (process_jobs cfg w) \<noteq> Inl (SystemExit code)"
    using process_jobs_no_exit[of w cfg code] by blast
qed

text \<open>
  With nothing loaded: no local model id ends the process; two local model ids lead to
  one request with no model id, and the pass returns \<^verbatim>\<open>False\<close>.
\<close>

theorem process_jobs_exit_or_poll_witness:
  "fst (process_jobs bare_config ((example_world (Returns None))\<lparr>local_model_ids := []\<rparr>))
     = Inl (SystemExit 0)
   \<and> map req_model_id
       (requests_posted (world_after (process_jobs bare_config (example_world (Returns None)))))
     = [None]
   \<and> fst (process_jobs bare_config (example_world (Returns None))) \<noteq> Inl (SystemExit 0)
   \<and> fst (process_jobs bare_config (example_world (Returns None))) = Inr False"
proof -
  let ?w = "example_world (Returns None)"
  let ?none = "?w\<lparr>local_model_ids := []\<rparr>"
  have 0: "local_model_ids ?none = []" by simp
  have 1: "local_model_ids ?w \<noteq> [] \<and> loaded_models bare_config = []
           \<and> loaded_loras bare_config = []" by code_simp
  have 2: "hardware ?w \<noteq> None" by code_simp
  have 3: "requests_posted ?w = []" by code_simp
  from process_jobs_exit_or_poll[of ?none bare_config] 0
  have a: "fst (process_jobs bare_config ?none) = Inl (SystemExit 0)" by blast
  have 4: "\<forall>response code. log_response ?w response \<noteq> Inl (SystemExit code)"
    by (simp add: example_world_def)
  have 5: "\<forall>code. submit_job_result ?w \<noteq> Some (SystemExit code)"
    by (simp add: example_world_def)
  have 6: "fst (process_jobs bare_config ?w) = Inr False" by code_simp
  from process_jobs_exit_or_poll[of ?w bare_config] 1 2 3
  obtain rq where "requests_posted (world_after (process_jobs bare_config ?w)) = [rq]"
    "req_model_id rq = None"
    by auto
  moreover from process_jobs_exit_or_poll[of ?w bare_config] 1 4 5
  have "fst (process_jobs bare_config ?w) \<noteq> Inl (SystemExit 0)" by blast
  ultimately show ?thesis using a 6 by simp
qed

text \<open>
  Claim C3 as stated fails: with no adapter and no base model loaded, a pass of the
  worker loop does not end the process (it returns the time for the next pass); it
  posts a job request with no model id, logs that no job came and sleeps.
\<close>

theorem worker_pass_polls_with_nothing_loaded:
  "loaded_models bare_config = [] \<and> loaded_loras bare_config = []
   \<and> fst (worker_pass bare_config 1000 (example_world (Returns None))) = Inr 1000
   \<and> trace (world_after (worker_pass bare_config 1000 (example_world (Returns None)))) =
       [Logged ''DEBUG''
          ''Heartbeat updated at {} with hardware {} and version {} for miner ID {}.'',
        Posted ''https://scheduler.example/miner_request''
          (Request
            \<lparr>req_miner_id = ''0x1c83C85b57117E73f1195c37316b2E99B481aD6e-7bac77'',
             req_model_id = None, req_min_deadline = 1,
             req_hardware = Some ''NVIDIA GeForce RTX 4090'',
             req_version = Some ''sd-v1.3.1''\<rparr>),
        Logged ''INFO'' ''No job received.'',
        Slept 5]"
  by code_simp

subsection \<open>The warning of a response\<close>

text \<open>
  Claim C4, as amended. For a truthy response whose body has the indicator
  \<^verbatim>\<open>Warning:\<close>, \<^verbatim>\<open>send_miner_request\<close> takes the text between the first indicator and
  the next one (the end of the body when there is none), removes every double quote at
  either end of that text and nothing else, and prints it after \<^verbatim>\<open>WARNING: \<close>. The
  warning does not fail the call: the call returns, or raises, what \<^verbatim>\<open>log_response\<close>
  returns or raises for the same response, a job included.
\<close>

theorem send_miner_request_warning:
  assumes "reply w = Returns (Some r)" and "truthy r"
    and "body_text r = pre @ warning_indicator @ mid @ rest"
    and "\<not> contains warning_indicator pre" and "\<not> contains warning_indicator mid"
    and "rest = [] \<or> prefix warning_indicator rest"
    and "60 \<le> now w - last_heartbeat cfg \<longrightarrow> hardware w \<noteq> None"
  shows "last (trace (world_after (send_miner_request cfg model_id deadline w)))
           = Printed (''WARNING: '' @ strip_quotes mid)
         \<and> map_sum id fst (fst (send_miner_request cfg model_id deadline w))
             = log_response w (Some r)"
proof -
  have c: "contains warning_indicator (body_text r)"
    using assms(3) contains_append[of warning_indicator pre "mid @ rest"] by simp
  have m: "warning_message (body_text r) = Inr (strip_quotes mid)"
    using assms(3) warning_message_between[OF assms(4) assms(5) assms(6)] by simp
  have d: "due cfg w \<longrightarrow> hardware w \<noteq> None" using assms(7) by (simp add: due_def)
  from send_warning[OF assms(1) d assms(2) c m] show ?thesis by simp
qed

text \<open>
  The body \<^verbatim>\<open>Warning:"disk almost full"\<close>, with a job in the same response: the text
  printed is \<^verbatim>\<open>WARNING: disk almost full\<close> and the job is returned.
\<close>

theorem send_miner_request_warning_witness:
  "last (trace (world_after (send_miner_request example_config (Some ''sd15'') 1
      (example_world (Returns (Some (job_response (''Warning:'' @ quoted ''disk almost full''))))))))
     = Printed ''WARNING: disk almost full''
   \<and> map_sum id fst (fst (send_miner_request example_config (Some ''sd15'') 1
      (example_world (Returns (Some (job_response (''Warning:'' @ quoted ''disk almost full'')))))))
     = Inr (Some [(''job_id'', JString ''7''), (''model_id'', JString ''sd15''),
                  (''temp_credentials'', JOther)])"
proof -
  let ?r = "job_response (''Warning:'' @ quoted ''disk almost full'')"
  let ?w = "example_world (Returns (Some ?r))"
  have 1: "reply ?w = Returns (Some ?r)" by (simp add: reply_def example_world_def)
  have 2: "truthy ?r" by (simp add: job_response_def)
  have 3: "body_text ?r = [] @ warning_indicator @ quoted ''disk almost full'' @ []"
    by (simp add: job_response_def warning_indicator_def)
  have 4: "\<not> contains warning_indicator []" by code_simp
  have 5: "\<not> contains warning_indicator (quoted ''disk almost full'')" by code_simp
  have 6: "([]::string) = [] \<or> prefix warning_indicator []" by simp
  have 7: "60 \<le> now ?w - last_heartbeat example_config \<longrightarrow> hardware ?w \<noteq> None"
    by (simp add: example_world_def)
  have 8: "strip_quotes (quoted ''disk almost full'') = ''disk almost full''" by code_simp
  have 9: "log_response ?w (Some ?r)
     = Inr (Some [(''job_id'', JString ''7''), (''model_id'', JString ''sd15''),
                  (''temp_credentials'', JOther)])"
    by (simp add: example_world_def job_response_def)
  from send_miner_request_warning[OF 1 2 3 4 5 6 7, of "Some ''sd15''" 1] 8 9
  show ?thesis by simp
qed

text \<open>
  Claim C4 as stated fails: the body holds \<^verbatim>\<open>Warning:"disk almost full"\<close> and then a
  newline, and the text printed keeps the closing quote and the newline.
\<close>

theorem warning_text_keeps_closing_quote:
  "contains (''Warning:'' @ quoted ''disk almost full'')
      (''Warning:'' @ quoted ''disk almost full'' @ [CHR 0x0A])
   \<and> last (trace (world_after (send_miner_request example_config (Some ''sd15'') 1
        (example_world (Returns (Some (job_response
           (''Warning:'' @ quoted ''disk almost full'' @ [CHR 0x0A]))))))))
     = Printed (''WARNING: disk almost full'' @ [CHR 0x22, CHR 0x0A])"
  by code_simp

subsection \<open>The log aggregator\<close>

text \<open>
  Claim C5. When the log has a line with the run marker and no later line has it, the
  result of \<^verbatim>\<open>parse_log_file\<close> is computed from the lines after that line alone: it is
  \<open>aggregate h post\<close>, in which neither the marker line nor any line before it occurs.
  This holds however many markers come before.
\<close>

theorem parse_log_file_after_last_marker:
  assumes "files h path = Some (pre @ m # post)"
    and "contains RUN_MARKER m" and "\<forall>l \<in> set post. \<not> contains RUN_MARKER l"
  shows "parse_log_file h path = aggregate h post"
  using assms by (rule parse_log_file_current_run)

text \<open>
  A log with two markers: the accepted job and the warning of the previous run are not
  counted.
\<close>

theorem parse_log_file_after_last_marker_witness:
  "parse_log_file example_host ''sd-miner.log'' = aggregate example_host current_run
   \<and> aggregate example_host current_run =
       Inr \<lparr>gpu_usage = [37], num_jobs = 1, success_jobs = 1, failed_jobs = 0,
            latency = 16 / 5, jobs_being_processed = 0\<rparr>"
proof -
  have f: "files example_host ''sd-miner.log'' = Some (previous_run @ marker_line # current_run)"
    by (simp add: example_host_def)
  have m: "contains RUN_MARKER marker_line" by code_simp
  have p: "\<forall>l \<in> set current_run. \<not> contains RUN_MARKER l" by code_simp
  have a: "aggregate example_host current_run =
       Inr \<lparr>gpu_usage = [37], num_jobs = 1, success_jobs = 1, failed_jobs = 0,
            latency = 16 / 5, jobs_being_processed = 0\<rparr>"
    by code_simp
  from parse_log_file_after_last_marker[OF f m p] a show ?thesis by simp
qed

text \<open>
  Claim C6. On a log that opens, \<^verbatim>\<open>parse_log_file\<close> raises StopIteration exactly when no
  line has the run marker; with a marker it never raises StopIteration, so the missing
  marker is told apart from a run with no activity, which returns zero counters.
\<close>

theorem parse_log_file_missing_marker:
  assumes "files h path = Some ls"
  shows "(parse_log_file h path = Inl StopIteration) = (\<forall>l \<in> set ls. \<not> contains RUN_MARKER l)"
proof (cases "start_index ls")
  case (Inl e)
  then have "e = StopIteration" by (rule start_index_error)
  with Inl assms show ?thesis
    by (simp add: parse_log_file_def start_index_no_marker[symmetric])
next
  case (Inr i)
  then have "parse_log_file h path = aggregate h (drop i ls)"
    using assms by (simp add: parse_log_file_def)
  then have "parse_log_file h path \<noteq> Inl StopIteration"
    using aggregate_error[of h "drop i ls" StopIteration] by auto
  with Inr show ?thesis
    by (simp add: start_index_no_marker[symmetric])
qed

text \<open>A log without a marker, and a log that is one marker line.\<close>

theorem parse_log_file_missing_marker_witness:
  "parse_log_file example_host ''unmarked.log'' = Inl StopIteration
   \<and> parse_log_file example_host ''fresh.log'' =
       Inr \<lparr>gpu_usage = [37], num_jobs = 0, success_jobs = 0, failed_jobs = 0,
            latency = 0, jobs_being_processed = 0\<rparr>"
proof -
  have f: "files example_host ''unmarked.log'' = Some current_run"
    by (simp add: example_host_def)
  have p: "\<forall>l \<in> set current_run. \<not> contains RUN_MARKER l" by code_simp
  have z: "parse_log_file example_host ''fresh.log'' =
       Inr \<lparr>gpu_usage = [37], num_jobs = 0, success_jobs = 0, failed_jobs = 0,
            latency = 0, jobs_being_processed = 0\<rparr>"
    by code_simp
  from parse_log_file_missing_marker[OF f] p z show ?thesis by simp
qed

text \<open>
  Claim C9. When no line after the last marker matches the completion pattern,
  \<^verbatim>\<open>parse_log_file\<close> does not divide by zero and every result it returns has latency 0:
  the mean is not computed. It returns exactly when NVML gives its readings and no line
  after the marker makes \<^verbatim>\<open>int\<close> (line 189) or \<^verbatim>\<open>json.loads\<close> (line 206) raise an exception
  that the loop does not catch; it raises otherwise.
\<close>

theorem parse_log_file_no_completions:
  assumes "files h path = Some (pre @ m # post)"
    and "contains RUN_MARKER m" and "\<forall>l \<in> set post. \<not> contains RUN_MARKER l"
    and "\<forall>l \<in> set post. search job_completed_pattern l = None"
  shows "parse_log_file h path \<noteq> Inl ZeroDivisionError
         \<and> (\<forall>r. parse_log_file h path = Inr r \<longrightarrow> latency r = 0)
         \<and> ((\<exists>r. parse_log_file h path = Inr r) \<longleftrightarrow>
                nvml h \<noteq> None \<and> (\<forall>l \<in> set post. \<not> line_raises h l))"
  using parse_log_file_current_run[OF assms(1-3)] aggregate_no_completion[OF assms(4), of h]
    parse_log_file_no_division_by_zero[of h path]
  by simp

text \<open>
  A run with a device and an accepted job that has not completed: no line raises, NVML
  answers, and the result has latency 0.
\<close>

theorem parse_log_file_no_completions_witness:
  "(\<exists>r. parse_log_file example_host ''idle.log'' = Inr r \<and> latency r = 0)
   \<and> parse_log_file example_host ''idle.log'' =
       Inr \<lparr>gpu_usage = [37], num_jobs = 1, success_jobs = 0, failed_jobs = 0,
            latency = 0, jobs_being_processed = 1\<rparr>"
proof -
  have f: "files example_host ''idle.log'' = Some (previous_run @ marker_line # idle_run)"
    by (simp add: example_host_def)
  have m: "contains RUN_MARKER marker_line" by code_simp
  have p: "\<forall>l \<in> set idle_run. \<not> contains RUN_MARKER l" by code_simp
  have c: "\<forall>l \<in> set idle_run. search job_completed_pattern l = None" by code_simp
  have n: "nvml example_host \<noteq> None" by (simp add: example_host_def)
  have q: "\<forall>l \<in> set idle_run. \<not> line_raises example_host l" by code_simp
  have v: "parse_log_file example_host ''idle.log'' =
       Inr \<lparr>gpu_usage = [37], num_jobs = 1, success_jobs = 0, failed_jobs = 0,
            latency = 0, jobs_being_processed = 1\<rparr>"
    by code_simp
  from parse_log_file_no_completions[OF f m p c] n q
  obtain r where "parse_log_file example_host ''idle.log'' = Inr r" "latency r = 0"
    by blast
  with v show ?thesis by simp
qed

text \<open>
  Claim C10, as amended. Whenever \<^verbatim>\<open>parse_log_file\<close> succeeds, the metrics satisfy
  \<open>jobs_being_processed = num_jobs - success_jobs\<close>. Among the lines after the last
  marker, \<^verbatim>\<open>num_jobs\<close> is the number of acceptance lines and \<^verbatim>\<open>success_jobs\<close> the number
  of completion lines that the loop does not skip: a line that matches
  \<^verbatim>\<open>job_received_pattern\<close> and whose payload does not decode is left by \<^verbatim>\<open>continue\<close>
  before either test. So \<^verbatim>\<open>jobs_being_processed\<close> is negative exactly when the counted
  completions outnumber the counted acceptances.
\<close>

theorem parse_log_file_counters:
  assumes "files h path = Some (pre @ m # post)"
    and "contains RUN_MARKER m" and "\<forall>l \<in> set post. \<not> contains RUN_MARKER l"
    and "parse_log_file h path = Inr r"
  shows "num_jobs r = int (counted (json_loads h) acceptance_line post)
         \<and> success_jobs r = int (counted (json_loads h) completion_line post)
         \<and> jobs_being_processed r = num_jobs r - success_jobs r
         \<and> (jobs_being_processed r < 0 \<longleftrightarrow>
              counted (json_loads h) acceptance_line post
                < counted (json_loads h) completion_line post)"
proof -
  from parse_log_file_current_run[OF assms(1-3)] assms(4)
  have "aggregate h post = Inr r" by simp
  from aggregate_counts[OF this] show ?thesis by auto
qed

text \<open>A run whose only line reports a completion: one job more is done than was accepted.\<close>

theorem parse_log_file_counters_witness:
  "parse_log_file example_host ''late.log'' =
       Inr \<lparr>gpu_usage = [37], num_jobs = 0, success_jobs = 1, failed_jobs = 0,
            latency = 16 / 5, jobs_being_processed = - 1\<rparr>
   \<and> counted (json_loads example_host) acceptance_line late_run = 0
   \<and> counted (json_loads example_host) completion_line late_run = 1"
proof -
  let ?r = "\<lparr>gpu_usage = [37], num_jobs = 0, success_jobs = 1, failed_jobs = 0,
            latency = 16 / 5 :: real, jobs_being_processed = - 1\<rparr>"
  have f: "files example_host ''late.log'' = Some (previous_run @ marker_line # late_run)"
    by (simp add: example_host_def)
  have m: "contains RUN_MARKER marker_line" by code_simp
  have p: "\<forall>l \<in> set late_run. \<not> contains RUN_MARKER l" by code_simp
  have v: "parse_log_file example_host ''late.log'' = Inr ?r" by code_simp
  from parse_log_file_counters[OF f m p v] v show ?thesis by simp
qed

text \<open>
  Claim C10 as stated fails: the one line after the marker is an acceptance line, and
  \<^verbatim>\<open>num_jobs\<close> and \<^verbatim>\<open>jobs_being_processed\<close> are still 0, because the line also matches
  \<^verbatim>\<open>job_received_pattern\<close> with a payload that is not JSON.
\<close>

theorem skipped_acceptance_line_not_counted:
  "files example_host ''echo.log'' = Some (previous_run @ marker_line # [echoed_line])
   \<and> acceptance_line echoed_line
   \<and> parse_log_file example_host ''echo.log'' =
       Inr \<lparr>gpu_usage = [37], num_jobs = 0, success_jobs = 0, failed_jobs = 0,
            latency = 0, jobs_being_processed = 0\<rparr>"
  by code_simp

subsection \<open>The entry point\<close>

text \<open>
  Claim C7. When the configuration loads and its device count exceeds the number of
  devices detected, the entry point prints the message to the operator and exits with
  status 1, and no worker process is started.
\<close>

theorem entry_point_too_many_devices:
  assumes "load_config s = Inr cfg0" and "initialize_logging_and_args s cfg0 = Inr cfg"
    and "num_cuda_devices cfg > device_count s"
  shows "entry_point s =
           (Exited 1,
            [Printed ''Number of CUDA devices specified in config is greater than available. Exiting...''])
         \<and> exit_status (fst (entry_point s)) = Some 1
         \<and> (\<forall>i. ProcessStarted i \<notin> set (snd (entry_point s)))"
  using assms by (simp add: entry_point_def exit_status_def)

text \<open>Four devices configured, two detected.\<close>

theorem entry_point_too_many_devices_witness:
  "num_cuda_devices example_config > device_count example_startup
   \<and> entry_point example_startup =
       (Exited 1,
        [Printed ''Number of CUDA devices specified in config is greater than available. Exiting...''])"
proof -
  have 1: "load_config example_startup = Inr example_config" by (simp add: example_startup_def)
  have 2: "initialize_logging_and_args example_startup example_config = Inr example_config"
    by (simp add: example_startup_def)
  have 3: "num_cuda_devices example_config > device_count example_startup"
    by (simp add: example_startup_def example_config_def)
  from entry_point_too_many_devices[OF 1 2 3] 3 show ?thesis by simp
qed


end
